theory Spec2Isabelle
  imports
    Complex_Main
    "HOL-Library.Monad_Syntax"
    "HOL-Library.Char_ord"
    "HOL-Library.List_Lexorder"
    "HOL-Library.Product_Lexorder"
begin

section \<open>Python strings and sequences\<close>

text \<open>
  A Python \<open>str\<close> is modelled as a \<open>string\<close>; a \<open>char\<close> stands for a code point
  below 256. \<open>isspace\<close> lists the code points below 256 for which Python's
  \<open>str.isspace\<close> holds; \<open>str.strip()\<close> removes them from both ends.
\<close>

definition isspace :: "char \<Rightarrow> bool" where
  "isspace c \<longleftrightarrow> c \<in> set [CHR 0x09, CHR 0x0A, CHR 0x0B, CHR 0x0C, CHR 0x0D,
                          CHR 0x1C, CHR 0x1D, CHR 0x1E, CHR 0x1F, CHR 0x20,
                          CHR 0x85, CHR 0xA0]"

definition strip :: "string \<Rightarrow> string" where
  "strip s = rev (dropWhile isspace (rev (dropWhile isspace s)))"

text \<open>
  \<open>s.split(c, 1)\<close> and \<open>s.rsplit(c, 1)\<close> for a one-character separator: a list of one
  element when the separator does not occur, of two elements otherwise.
\<close>

definition split1 :: "char \<Rightarrow> string \<Rightarrow> string list" where
  "split1 c s =
     (if c \<in> set s then [takeWhile (\<lambda>x. x \<noteq> c) s, tl (dropWhile (\<lambda>x. x \<noteq> c) s)]
      else [s])"

definition rsplit1 :: "char \<Rightarrow> string \<Rightarrow> string list" where
  "rsplit1 c s =
     (if c \<in> set s
      then [rev (tl (dropWhile (\<lambda>x. x \<noteq> c) (rev s))), rev (takeWhile (\<lambda>x. x \<noteq> c) (rev s))]
      else [s])"

text \<open>
  \<open>xs[i]\<close> with Python's indexing: a negative index counts from the end, and an index
  out of range raises IndexError, which is the value \<open>None\<close>.
\<close>

definition item :: "'a list \<Rightarrow> int \<Rightarrow> 'a option" where
  "item xs i =
     (let n = int (length xs); j = (if i < 0 then n + i else i)
      in if 0 \<le> j \<and> j < n then Some (xs ! nat j) else None)"

text \<open>\<open>s.startswith(p)\<close>\<close>

definition startswith :: "string \<Rightarrow> string \<Rightarrow> bool" where
  "startswith s p \<longleftrightarrow> take (length p) s = p"

section \<open>The label normalizer\<close>

text \<open>
  \<open>normalize\<close>, the function nested in \<open>read_events\<close>. The first part is the branch for
  labels with both parentheses: its value is \<open>Some (Return r)\<close> when it returns \<open>r\<close>,
  \<open>Some Continue\<close> when control falls through to the fallback, and \<open>None\<close> when an
  index raises.
\<close>

datatype 'a flow = Return 'a | Continue

definition nested :: "string \<Rightarrow> string flow option" where
  "nested s =
     (if CHR ''('' \<in> set s \<and> CHR '')'' \<in> set s then
        do {
          a \<leftarrow> item (split1 CHR ''('' s) 0;
          r \<leftarrow> item (split1 CHR ''('' s) 1;
          inner \<leftarrow> item (rsplit1 CHR '')'' r) 0;
          b \<leftarrow> item (split1 CHR ''{'' inner) 0;
          v \<leftarrow> item (split1 CHR ''('' b) 0;
          let actor = strip a; variant = strip v in
          Some (if actor \<noteq> [] \<and> variant \<noteq> [] then Return (actor @ ''.'' @ variant) else Continue)
        }
      else Some Continue)"

text \<open>The loop over the recognised actors, and the final \<open>return head\<close>.\<close>

fun actor_loop :: "string list \<Rightarrow> string \<Rightarrow> string" where
  "actor_loop [] head = head"
| "actor_loop (actor # rest) head =
     (if startswith head actor \<and> length head > length actor
      then actor @ ''.'' @ drop (length actor) head
      else actor_loop rest head)"

definition fallback :: "string \<Rightarrow> string option" where
  "fallback s =
     do {
       b \<leftarrow> item (split1 CHR ''{'' s) 0;
       h \<leftarrow> item (split1 CHR ''('' b) 0;
       let head = strip h in
       Some (actor_loop [''Farm'', ''Mill'', ''Bakery''] head)
     }"

definition normalize :: "string \<Rightarrow> string option" where
  "normalize label =
     (let s = strip label in
      case nested s of
        None \<Rightarrow> None
      | Some (Return r) \<Rightarrow> Some r
      | Some Continue \<Rightarrow> fallback s)"

section \<open>CSV input\<close>

text \<open>
  A row as \<open>csv.DictReader\<close> yields it: a dictionary from the header names to the cells,
  where a cell missing from a short row has the value \<open>None\<close> (here \<open>Some None\<close>; a key
  that is absent altogether is \<open>None\<close>), and the cells beyond the header, if any, are
  collected under the key \<open>None\<close> (here the field \<open>extras\<close>).

  A file is either unreadable (opening or decoding it raises an exception with the given
  text) or a table: the header names (\<open>None\<close> for an empty file) and the rows.
\<close>

record csv_row =
  cells :: "string \<rightharpoonup> string option"
  extras :: "string list option"

datatype csv_file = Unreadable string | Table "string list option" "csv_row list"

text \<open>\<open>required.issubset(r.fieldnames or {})\<close>\<close>

definition has_headers :: "string list \<Rightarrow> string list option \<Rightarrow> bool" where
  "has_headers required fieldnames \<longleftrightarrow>
     set required \<subseteq> (case fieldnames of None \<Rightarrow> {} | Some fs \<Rightarrow> set fs)"

text \<open>
  \<open>float(row[k])\<close> and \<open>int(row[k])\<close> inside a \<open>try\<close> whose handler catches every
  \<open>Exception\<close>: the value is \<open>None\<close> when the key is missing (KeyError), when the cell
  is \<open>None\<close> (TypeError) or when the text does not parse (ValueError). The built-in
  parsers \<open>float\<close> and \<open>int\<close> are parameters of the model, \<open>None\<close> where they raise;
  \<open>'f\<close> is the type of floating-point values.
\<close>

definition convert :: "(string \<Rightarrow> 'a option) \<Rightarrow> string option option \<Rightarrow> 'a option" where
  "convert parse cell =
     (case cell of None \<Rightarrow> None | Some None \<Rightarrow> None | Some (Some s) \<Rightarrow> parse s)"

subsection \<open>The trace loader (the first part of \<open>main\<close>)\<close>

definition trace_row ::
  "(string \<Rightarrow> 'f option) \<Rightarrow> (string \<Rightarrow> int option) \<Rightarrow> csv_row \<Rightarrow> ('f \<times> int \<times> int \<times> int) option"
where
  "trace_row py_float py_int row =
     do {
       t \<leftarrow> convert py_float (cells row ''months'');
       w \<leftarrow> convert py_int (cells row ''wheat'');
       fl \<leftarrow> convert py_int (cells row ''flour'');
       br \<leftarrow> convert py_int (cells row ''bread'');
       Some (t, w, fl, br)
     }"

fun trace_loop ::
  "(string \<Rightarrow> 'f option) \<Rightarrow> (string \<Rightarrow> int option) \<Rightarrow> csv_row list \<Rightarrow>
   'f list \<times> int list \<times> int list \<times> int list \<Rightarrow> 'f list \<times> int list \<times> int list \<times> int list"
where
  "trace_loop py_float py_int [] acc = acc"
| "trace_loop py_float py_int (row # rows) (months, wheat, flour, bread) =
     (case trace_row py_float py_int row of
        None \<Rightarrow> trace_loop py_float py_int rows (months, wheat, flour, bread)
      | Some (t, w, fl, br) \<Rightarrow>
          trace_loop py_float py_int rows (months @ [t], wheat @ [w], flour @ [fl], bread @ [br]))"

subsection \<open>\<open>read_events\<close>\<close>

text \<open>\<open>sep.join(xs)\<close>\<close>

fun join :: "string \<Rightarrow> string list \<Rightarrow> string" where
  "join sep [] = []"
| "join sep [x] = x"
| "join sep (x # y # ys) = x @ sep @ join sep (y # ys)"

text \<open>
  The body of the \<open>try\<close> in the row loop; \<open>None\<close> when an exception is caught and the row
  is skipped. \<open>row.get("event", "")\<close> is \<open>None\<close> for a cell that a short row lacks; then
  joining it with the extra cells, or stripping it, raises.
\<close>

definition event_row :: "(string \<Rightarrow> 'f option) \<Rightarrow> csv_row \<Rightarrow> ('f \<times> string) option" where
  "event_row py_float row =
     do {
       t \<leftarrow> convert py_float (cells row ''months'');
       let label = (case cells row ''event'' of None \<Rightarrow> Some [] | Some cell \<Rightarrow> cell);
       label \<leftarrow> (case extras row of
                  None \<Rightarrow> Some label
                | Some ex \<Rightarrow>
                    if ex = [] then Some label
                    else (case label of
                            None \<Rightarrow> None
                          | Some l \<Rightarrow> Some (Some (join '','' (l # ex)))));
       l \<leftarrow> label;
       Some (t, strip l)
     }"

text \<open>
  \<open>times_by_label\<close> is a dictionary, kept as an association list in insertion order;
  \<open>times_by_label.setdefault(key, []).append(t)\<close>:
\<close>

fun setdefault_append :: "('k \<times> 'v list) list \<Rightarrow> 'k \<Rightarrow> 'v \<Rightarrow> ('k \<times> 'v list) list" where
  "setdefault_append [] key t = [(key, [t])]"
| "setdefault_append ((k, ts) # d) key t =
     (if k = key then (k, ts @ [t]) # d else (k, ts) # setdefault_append d key t)"

fun events_loop ::
  "(string \<Rightarrow> 'f option) \<Rightarrow> csv_row list \<Rightarrow> (string \<times> 'f list) list \<Rightarrow>
   (string \<times> 'f list) list option"
where
  "events_loop py_float [] times_by_label = Some times_by_label"
| "events_loop py_float (row # rows) times_by_label =
     (case event_row py_float row of
        None \<Rightarrow> events_loop py_float rows times_by_label
      | Some (t, label) \<Rightarrow>
          (case normalize label of
             None \<Rightarrow> None
           | Some key \<Rightarrow> events_loop py_float rows (setdefault_append times_by_label key t)))"

text \<open>
  What \<open>read_events\<close> raises: \<open>SystemExit\<close> with its argument, or an exception of the
  class \<open>Exception\<close> with its text.
\<close>

datatype raised = SystemExit string | Exception string

definition read_events ::
  "(string \<Rightarrow> 'f option) \<Rightarrow> (string \<Rightarrow> csv_file) \<Rightarrow> string \<Rightarrow> raised + (string \<times> 'f list) list"
where
  "read_events py_float files csv_path =
     (case files csv_path of
        Unreadable e \<Rightarrow> Inl (Exception e)
      | Table fieldnames rows \<Rightarrow>
          if \<not> has_headers [''months'', ''event''] fieldnames
          then Inl (SystemExit ''Events CSV missing required headers months,event'')
          else (case events_loop py_float rows [] of
                  None \<Rightarrow> Inl (Exception ''IndexError'')
                | Some times_by_label \<Rightarrow> Inr times_by_label))"

section \<open>The plot built by \<open>main\<close>\<close>

text \<open>
  The artists that \<open>main\<close> creates. A step series carries its label and the x and y data
  that the plotting library keeps for it; a marker is the vertical line of \<open>ax.axvline\<close>
  with its position and colour. \<open>hover_events\<close> holds the triples \<open>(ln, label, t)\<close>;
  \<open>stubs\<close> holds the colour and the label of the empty line that \<open>main\<close> plots for each
  event label as its legend entry.
\<close>

record 'f line2d =
  label :: string
  xdata :: "'f list"
  ydata :: "'f list"

record 'f vline =
  vx :: 'f
  vcolor :: string

record 'f figure =
  lines :: "'f line2d list"
  hover_events :: "('f vline \<times> string \<times> 'f) list"
  stubs :: "(string \<times> string) list"
  title :: string
  stderr :: "string list"
  stdout :: "string list"
  saved :: "string option"
  shown :: bool

text \<open>\<open>str(n)\<close> for a length \<open>n\<close>\<close>

function str_nat :: "nat \<Rightarrow> string" where
  "str_nat n =
     (if n < 10 then [''0123456789'' ! n]
      else str_nat (n div 10) @ [''0123456789'' ! (n mod 10)])"
  by pat_completeness auto
termination
  by (relation "measure (\<lambda>n. n)") auto

definition palette :: "string list" where
  "palette = [''tab:blue'', ''tab:orange'', ''tab:green'', ''tab:red'', ''tab:purple'',
              ''tab:brown'', ''tab:pink'', ''gold'']"

text \<open>
  The inner loop \<open>for t in sorted(times)\<close> and the outer loop over the sorted items.
  \<open>py_sorted\<close> is Python's \<open>sorted\<close> on a list of floats, a parameter of the model as
  \<open>float\<close> is: what it returns depends on how \<open><\<close> compares the elements, and \<open><\<close>
  holds of no pair of floats one of which is NaN, so that a list with a NaN need not
  come back in ascending order.
\<close>

fun marker_loop ::
  "string \<Rightarrow> string \<Rightarrow> 'f list \<Rightarrow> ('f vline \<times> string \<times> 'f) list \<Rightarrow> ('f vline \<times> string \<times> 'f) list"
where
  "marker_loop color lab [] hover = hover"
| "marker_loop color lab (t # ts) hover =
     marker_loop color lab ts (hover @ [(\<lparr>vx = t, vcolor = color\<rparr>, lab, t)])"

fun overlay_loop ::
  "('f list \<Rightarrow> 'f list) \<Rightarrow> nat \<Rightarrow> (string \<times> 'f list) list \<Rightarrow>
   ('f vline \<times> string \<times> 'f) list \<times> (string \<times> string) list \<Rightarrow>
   ('f vline \<times> string \<times> 'f) list \<times> (string \<times> string) list"
where
  "overlay_loop py_sorted i [] acc = acc"
| "overlay_loop py_sorted i ((lab, ts) # rest) (hover, legend) =
     (let color = palette ! (i mod length palette)
      in overlay_loop py_sorted (Suc i) rest
           (marker_loop color lab (py_sorted ts) hover,
            legend @ [(color, lab @ '' ('' @ str_nat (length ts) @ '')'')]))"

text \<open>
  The command line after parsing, and the environment: the files by path, and the
  plotting library, whose import either succeeds (\<open>None\<close>) or raises an exception with
  the given text.
\<close>

record args =
  csv :: string
  out :: "string option"
  show_window :: bool
  events :: "string option"
  title_arg :: string

record env =
  files :: "string \<Rightarrow> csv_file"
  matplotlib :: "string option"

datatype exit_arg = Code int | Message string

text \<open>
  How \<open>main\<close> ends: an exception that nothing catches, \<open>SystemExit\<close> with its argument
  after the given lines on standard error, or the finished figure.
\<close>

datatype 'f outcome =
    Uncaught string
  | Exit exit_arg "string list"
  | Rendered "'f figure"

text \<open>
  \<open>if x:\<close> for an optional string: \<open>None\<close> and the empty string are false. The value
  is the string when the test succeeds.
\<close>

definition given :: "string option \<Rightarrow> string option" where
  "given x = (case x of None \<Rightarrow> None | Some p \<Rightarrow> if p = [] then None else Some p)"

text \<open>
  The first part of \<open>main\<close>, up to the end of the row loop: the four lists, or the way
  the program ends before.
\<close>

definition load_trace ::
  "(string \<Rightarrow> 'f option) \<Rightarrow> (string \<Rightarrow> int option) \<Rightarrow> csv_file \<Rightarrow>
   'f outcome + 'f list \<times> int list \<times> int list \<times> int list"
where
  "load_trace py_float py_int file =
     (case file of
        Unreadable x \<Rightarrow> Inl (Uncaught x)
      | Table fieldnames rows \<Rightarrow>
          if \<not> has_headers [''months'', ''wheat'', ''flour'', ''bread''] fieldnames
          then Inl (Exit (Code 2) [''CSV missing required headers months,wheat,flour,bread''])
          else Inr (trace_loop py_float py_int rows ([], [], [], [])))"

text \<open>
  The three step series, created only \<open>if months\<close>. \<open>as_float\<close> is the conversion by
  which the plotting library stores the integer samples of a series as its y data.
\<close>

definition step_lines ::
  "(int \<Rightarrow> 'f) \<Rightarrow> 'f list \<Rightarrow> int list \<Rightarrow> int list \<Rightarrow> int list \<Rightarrow> 'f line2d list"
where
  "step_lines as_float months wheat flour bread =
     (if months \<noteq> []
      then [\<lparr>label = ''Wheat'', xdata = months, ydata = map as_float wheat\<rparr>,
            \<lparr>label = ''Flour'', xdata = months, ydata = map as_float flour\<rparr>,
            \<lparr>label = ''Bread'', xdata = months, ydata = map as_float bread\<rparr>]
      else [])"

text \<open>
  The events overlay of \<open>main\<close>: \<open>read_events\<close> with the two handlers around it, then
  the loops that create the markers. \<open>Inl m\<close> is the re-raised \<open>SystemExit\<close>; otherwise
  the lines logged on standard error, \<open>hover_events\<close> and the legend stubs.

  \<open>sorted(events_by_label.items())\<close> sorts pairs of a label and a list of times. The
  labels are the keys of a dictionary, hence distinct, and Python compares two tuples by
  their first components when these differ: the lists are never compared, and the items
  come back in ascending order of their labels, which is \<open>sort_key fst\<close>.
\<close>

definition events_overlay ::
  "(string \<Rightarrow> 'f option) \<Rightarrow> ('f list \<Rightarrow> 'f list) \<Rightarrow> (string \<Rightarrow> csv_file) \<Rightarrow> string option \<Rightarrow>
   string + string list \<times> ('f vline \<times> string \<times> 'f) list \<times> (string \<times> string) list"
where
  "events_overlay py_float py_sorted fs ev =
     (case given ev of
        None \<Rightarrow> Inr ([], [], [])
      | Some path \<Rightarrow>
          (case read_events py_float fs path of
             Inl (SystemExit m) \<Rightarrow> Inl m
           | Inl (Exception x) \<Rightarrow>
               Inr ([''Failed to read events CSV: '' @ x],
                    overlay_loop py_sorted 0 (sort_key fst []) ([], []))
           | Inr events_by_label \<Rightarrow>
               Inr ([], overlay_loop py_sorted 0 (sort_key fst events_by_label) ([], []))))"

text \<open>\<open>main\<close>\<close>

definition main ::
  "(string \<Rightarrow> 'f option) \<Rightarrow> (string \<Rightarrow> int option) \<Rightarrow> ('f list \<Rightarrow> 'f list) \<Rightarrow> (int \<Rightarrow> 'f) \<Rightarrow>
   env \<Rightarrow> args \<Rightarrow> 'f outcome"
where
  "main py_float py_int py_sorted as_float e a =
     (case load_trace py_float py_int (files e (csv a)) of
        Inl ended \<Rightarrow> ended
      | Inr (months, wheat, flour, bread) \<Rightarrow>
          (case matplotlib e of
             Some x \<Rightarrow> Exit (Code 3) [''matplotlib not available: '' @ x]
           | None \<Rightarrow>
               (case events_overlay py_float py_sorted (files e) (events a) of
                  Inl m \<Rightarrow> Exit (Message m) []
                | Inr (err, hover, legend) \<Rightarrow>
                    Rendered
                      \<lparr>lines = step_lines as_float months wheat flour bread,
                       hover_events = hover,
                       stubs = legend,
                       title = title_arg a,
                       stderr = err,
                       stdout = (case given (out a) of
                                   None \<Rightarrow> []
                                 | Some path \<Rightarrow> [''Saved plot to '' @ path]),
                       saved = given (out a),
                       shown = show_window a\<rparr>)))"

section \<open>The hover resolver\<close>

text \<open>
  The single annotation and the canvas: the only state that \<open>on_move\<close> changes. \<open>draws\<close>
  counts the calls of \<open>fig.canvas.draw_idle()\<close>.
\<close>

record 'f annotation =
  xy :: "'f \<times> 'f"
  caption :: string
  visible :: bool

record 'f canvas =
  annot :: "'f annotation"
  draws :: nat

text \<open>
  A pointer event: whether \<open>event.inaxes\<close> is the axes of the plot, and the data
  coordinates of the pointer.
\<close>

record 'f pointer =
  inaxes :: bool
  px :: 'f
  py :: 'f

text \<open>
  The hit test \<open>ln.contains(event)\<close> belongs to the plotting library and is a parameter
  of the model. It raises, or returns \<open>(hit, info)\<close>; \<open>info\<close> is a dictionary whose
  entry \<open>"ind"\<close> lists sample indices (no entry counts as the empty list), or is not a
  dictionary.
\<close>

datatype info = NotDict | Dict "int list"

datatype probe = Raises | Result bool info

datatype 'f artist = StepLine "'f line2d" | VLine "'f vline"

text \<open>\<open>bisect.bisect_left(a, x)\<close>: the loop of the library, from \<open>lo = 0\<close>, \<open>hi = len(a)\<close>.\<close>

function bisect_loop :: "('a::linorder) list \<Rightarrow> 'a \<Rightarrow> nat \<Rightarrow> nat \<Rightarrow> nat" where
  "bisect_loop a x lo hi =
     (if lo < hi
      then (let mid = (lo + hi) div 2
            in if a ! mid < x then bisect_loop a x (mid + 1) hi else bisect_loop a x lo mid)
      else lo)"
  by pat_completeness auto
termination
  by (relation "measure (\<lambda>(a, x, lo, hi). hi - lo)") auto

definition bisect_left :: "('a::linorder) list \<Rightarrow> 'a \<Rightarrow> nat" where
  "bisect_left a x = bisect_loop a x 0 (length a)"

text \<open>
  The index of the sample to show: the first index that the hit test reports, if any,
  else the clamped insertion point of the pointer's x.
\<close>

definition sample_index :: "info \<Rightarrow> ('f::linorder) list \<Rightarrow> 'f \<Rightarrow> int" where
  "sample_index nfo xd x =
     (case (case nfo of Dict (i # inds) \<Rightarrow> Some i | _ \<Rightarrow> None) of
        Some ind \<Rightarrow> ind
      | None \<Rightarrow> max 0 (min (int (length xd) - 1) (int (bisect_left xd x))))"

text \<open>
  \<open>update_annot\<close>. The two formatters of floating-point values are parameters:
  \<open>fstr y\<close> is \<open>f"{y}"\<close> and \<open>fmt3 x\<close> is \<open>f"{x:.3f}"\<close>.
\<close>

definition update_annot ::
  "('f \<Rightarrow> string) \<Rightarrow> ('f \<Rightarrow> string) \<Rightarrow> 'f annotation \<Rightarrow> 'f line2d \<Rightarrow> 'f \<Rightarrow> 'f \<Rightarrow> 'f annotation"
where
  "update_annot fstr fmt3 an line x y =
     an\<lparr>xy := (x, y),
        caption := label line @ '': '' @ fstr y @ [CHR 0x0A] @ ''@ t='' @ fmt3 x,
        visible := True\<rparr>"

text \<open>
  The body of \<open>if hit:\<close> in the loop over the data series: the canvas afterwards, or
  \<open>None\<close> when indexing the data raises IndexError.
\<close>

definition show_sample ::
  "('f \<Rightarrow> string) \<Rightarrow> ('f \<Rightarrow> string) \<Rightarrow> ('f::linorder) line2d \<Rightarrow> info \<Rightarrow> 'f pointer \<Rightarrow>
   'f canvas \<Rightarrow> 'f canvas option"
where
  "show_sample fstr fmt3 line nfo ev c =
     do {
       let ind = sample_index nfo (xdata line) (px ev);
       x \<leftarrow> item (xdata line) ind;
       y \<leftarrow> item (ydata line) ind;
       Some (c\<lparr>annot := update_annot fstr fmt3 (annot c) line x y, draws := Suc (draws c)\<rparr>)
     }"

text \<open>
  The loop over the data series. Its value is the list of the artists probed, in order,
  and how the loop ends: \<open>Return r\<close> when the handler returns or raises inside the loop,
  \<open>Continue\<close> when no series is hit.
\<close>

fun series_loop ::
  "(('f::linorder) artist \<Rightarrow> 'f pointer \<Rightarrow> probe) \<Rightarrow> ('f \<Rightarrow> string) \<Rightarrow> ('f \<Rightarrow> string) \<Rightarrow>
   'f pointer \<Rightarrow> 'f line2d list \<Rightarrow> 'f canvas \<Rightarrow> 'f artist list \<times> 'f canvas option flow"
where
  "series_loop contains fstr fmt3 ev [] c = ([], Continue)"
| "series_loop contains fstr fmt3 ev (line # rest) c =
     (case (case contains (StepLine line) ev of
              Raises \<Rightarrow> (False, Dict [])
            | Result hit nfo \<Rightarrow> (hit, nfo)) of
        (hit, nfo) \<Rightarrow>
          if hit then ([StepLine line], Return (show_sample fstr fmt3 line nfo ev c))
          else
            (case series_loop contains fstr fmt3 ev rest c of
               (probed, r) \<Rightarrow> (StepLine line # probed, r)))"

text \<open>The body of \<open>if hit:\<close> in the loop over \<open>hover_events\<close>.\<close>

definition show_marker :: "('f \<Rightarrow> string) \<Rightarrow> string \<Rightarrow> 'f \<Rightarrow> 'f pointer \<Rightarrow> 'f canvas \<Rightarrow> 'f canvas" where
  "show_marker fmt3 lab t ev c =
     c\<lparr>annot := (annot c)\<lparr>xy := (px ev, py ev),
                            caption := lab @ [CHR 0x0A] @ ''@ t='' @ fmt3 t,
                            visible := True\<rparr>,
       draws := Suc (draws c)\<rparr>"

text \<open>The loop over \<open>hover_events\<close>.\<close>

fun markers_loop ::
  "('f artist \<Rightarrow> 'f pointer \<Rightarrow> probe) \<Rightarrow> ('f \<Rightarrow> string) \<Rightarrow>
   'f pointer \<Rightarrow> ('f vline \<times> string \<times> 'f) list \<Rightarrow> 'f canvas \<Rightarrow> 'f artist list \<times> 'f canvas flow"
where
  "markers_loop contains fmt3 ev [] c = ([], Continue)"
| "markers_loop contains fmt3 ev ((line, lab, t) # rest) c =
     (if (case contains (VLine line) ev of Raises \<Rightarrow> False | Result hit nfo \<Rightarrow> hit) then
        ([VLine line], Return (show_marker fmt3 lab t ev c))
      else
        (case markers_loop contains fmt3 ev rest c of
           (probed, r) \<Rightarrow> (VLine line # probed, r)))"

text \<open>Hiding the annotation, with a redraw, if it is visible.\<close>

definition hide :: "'f canvas \<Rightarrow> 'f canvas" where
  "hide c =
     (if visible (annot c)
      then c\<lparr>annot := (annot c)\<lparr>visible := False\<rparr>, draws := Suc (draws c)\<rparr>
      else c)"

text \<open>
  \<open>on_move\<close>: the artists probed, in order, and the canvas afterwards (\<open>None\<close> when the
  handler raises).
\<close>

definition on_move ::
  "(('f::linorder) artist \<Rightarrow> 'f pointer \<Rightarrow> probe) \<Rightarrow> ('f \<Rightarrow> string) \<Rightarrow> ('f \<Rightarrow> string) \<Rightarrow>
   'f line2d list \<Rightarrow> ('f vline \<times> string \<times> 'f) list \<Rightarrow> 'f pointer \<Rightarrow> 'f canvas \<Rightarrow>
   'f artist list \<times> 'f canvas option"
where
  "on_move contains fstr fmt3 ls hover ev c =
     (if \<not> inaxes ev then ([], Some (hide c))
      else
        (case series_loop contains fstr fmt3 ev ls c of
           (probed, Return r) \<Rightarrow> (probed, r)
         | (probed, Continue) \<Rightarrow>
             (case markers_loop contains fmt3 ev hover c of
                (probed', Return c') \<Rightarrow> (probed @ probed', Some c')
              | (probed', Continue) \<Rightarrow> (probed @ probed', Some (hide c)))))"

section \<open>The specification's reading of the normalizer\<close>

text \<open>
  Positions and substrings as the specification words them: the index of the first and
  of the last occurrence of a character, and \<open>substring s i j\<close> for the text from index
  \<open>i\<close> up to, not including, index \<open>j\<close> (empty when \<open>j \<le> i\<close>).
\<close>

definition first_pos :: "char \<Rightarrow> string \<Rightarrow> nat" where
  "first_pos c s = length (takeWhile (\<lambda>x. x \<noteq> c) s)"

definition last_pos :: "char \<Rightarrow> string \<Rightarrow> nat" where
  "last_pos c s = length s - Suc (length (takeWhile (\<lambda>x. x \<noteq> c) (rev s)))"

definition substring :: "string \<Rightarrow> nat \<Rightarrow> nat \<Rightarrow> string" where
  "substring s i j = take (j - i) (drop i s)"

text \<open>The portion before the leftmost of the first \<open>{\<close> and the first \<open>(\<close>, trimmed.\<close>

definition spec_head :: "string \<Rightarrow> string" where
  "spec_head s = strip (substring s 0 (min (first_pos CHR ''{'' s) (first_pos CHR ''('' s)))"

text \<open>
  Step 1: the actor is the trimmed text before the first \<open>(\<close>, \<open>inner\<close> is the text between
  the first \<open>(\<close> and the last \<open>)\<close>, and the variant is the head of \<open>inner\<close>.
\<close>

definition spec_actor :: "string \<Rightarrow> string" where
  "spec_actor s = strip (substring s 0 (first_pos CHR ''('' s))"

definition spec_inner :: "string \<Rightarrow> string" where
  "spec_inner s = substring s (Suc (first_pos CHR ''('' s)) (last_pos CHR '')'' s)"

definition spec_variant :: "string \<Rightarrow> string" where
  "spec_variant s = spec_head (spec_inner s)"

text \<open>
  Step 2: the first recognised actor that \<open>head\<close> starts with and is strictly longer
  than splits it; otherwise \<open>head\<close> is the result.
\<close>

definition spec_fallback :: "string \<Rightarrow> string" where
  "spec_fallback head =
     (case find (\<lambda>name. startswith head name \<and> length name < length head)
             [''Farm'', ''Mill'', ''Bakery''] of
        Some name \<Rightarrow> name @ ''.'' @ drop (length name) head
      | None \<Rightarrow> head)"

section \<open>The variant that the first branch takes\<close>

text \<open>
  This is not the variant of the specification. The first branch of \<open>normalize\<close> splits
  the label at its first \<open>(\<close> and looks for the last \<open>)\<close> only in what follows: its
  \<open>inner\<close> is the text after the first \<open>(\<close> up to the last \<open>)\<close> that follows it, and all
  of that text when no \<open>)\<close> follows. \<open>actual_inner\<close> is that text, read by position, and
  \<open>actual_variant\<close> its head. The two readings agree when the last \<open>)\<close> of the label
  comes after its first \<open>(\<close>; for the label \<open>)a(b\<close> the specification's \<open>inner\<close> is empty
  and this one is \<open>b\<close>.
\<close>

definition actual_inner :: "string \<Rightarrow> string" where
  "actual_inner s =
     (let r = drop (Suc (first_pos CHR ''('' s)) s
      in if CHR '')'' \<in> set r then take (last_pos CHR '')'' r) r else r)"

definition actual_variant :: "string \<Rightarrow> string" where
  "actual_variant s = spec_head (actual_inner s)"

section \<open>The specification's reading of the loaders\<close>

text \<open>
  A trace row is well formed when its months cell parses as a float and its wheat, flour
  and bread cells parse as integers; \<open>parsed parse key row\<close> is the parsed value of a
  cell.
\<close>

definition well_formed :: "(string \<Rightarrow> 'f option) \<Rightarrow> (string \<Rightarrow> int option) \<Rightarrow> csv_row \<Rightarrow> bool" where
  "well_formed py_float py_int row \<longleftrightarrow>
     convert py_float (cells row ''months'') \<noteq> None \<and>
     convert py_int (cells row ''wheat'') \<noteq> None \<and>
     convert py_int (cells row ''flour'') \<noteq> None \<and>
     convert py_int (cells row ''bread'') \<noteq> None"

definition parsed :: "(string \<Rightarrow> 'a option) \<Rightarrow> string \<Rightarrow> csv_row \<Rightarrow> 'a" where
  "parsed parse key row = the (convert parse (cells row key))"

section \<open>Example inputs\<close>

text \<open>
  Parsers for the examples, defined on the numerals that the examples use, where they
  agree with Python's \<open>float\<close> and \<open>int\<close>; floating-point values are reals here.
\<close>

definition example_float :: "string \<Rightarrow> real option" where
  "example_float = map_of [(''0'', 0), (''1'', 1), (''1.0'', 1), (''2'', 2), (''3'', 3), (''4'', 4)]"

definition example_int :: "string \<Rightarrow> int option" where
  "example_int = map_of [(''0'', 0), (''2'', 2), (''5'', 5), (''10'', 10)]"

text \<open>
  Python's \<open>sorted\<close> on the times of these examples: no real is NaN, and the times come
  back in ascending order.
\<close>

definition example_isnan :: "real \<Rightarrow> bool" where
  "example_isnan x = False"

definition example_sorted :: "real list \<Rightarrow> real list" where
  "example_sorted ts = sort ts"

definition trace_cells :: "string \<Rightarrow> string \<Rightarrow> string \<Rightarrow> string \<Rightarrow> csv_row" where
  "trace_cells m w f b =
     \<lparr>cells = [''months'' \<mapsto> Some m, ''wheat'' \<mapsto> Some w, ''flour'' \<mapsto> Some f, ''bread'' \<mapsto> Some b],
      extras = None\<rparr>"

definition event_cells :: "string \<Rightarrow> string \<Rightarrow> csv_row" where
  "event_cells m ev = \<lparr>cells = [''months'' \<mapsto> Some m, ''event'' \<mapsto> Some ev], extras = None\<rparr>"

text \<open>A trace of five rows; the flour cell of the third does not parse.\<close>

definition example_trace :: "csv_row list" where
  "example_trace =
     [trace_cells ''0'' ''0'' ''0'' ''0'',
      trace_cells ''1'' ''10'' ''5'' ''2'',
      trace_cells ''2'' ''10'' ''x'' ''2'',
      trace_cells ''3'' ''10'' ''5'' ''2'',
      trace_cells ''4'' ''5'' ''5'' ''0'']"

text \<open>
  The files of the examples: the trace, three events files, the last with the months
  cell \<open>nan\<close> in its second row, an events file whose header lacks \<open>event\<close>, and no file
  under any other path.
\<close>

definition example_files :: "string \<Rightarrow> csv_file" where
  "example_files path =
     (if path = ''trace.csv''
      then Table (Some [''months'', ''wheat'', ''flour'', ''bread'']) example_trace
      else if path = ''events.csv''
      then Table (Some [''months'', ''event''])
             [event_cells ''1.0'' ''Farm(Sow{})'', event_cells ''1.0'' ''Farm(Sow{})'']
      else if path = ''pipeline.csv''
      then Table (Some [''months'', ''event''])
             [event_cells ''2'' ''Mill(Grind{})'', event_cells ''1'' ''Farm(Sow{})'',
              event_cells ''1'' ''Mill(Grind{})'']
      else if path = ''nan.csv''
      then Table (Some [''months'', ''event''])
             [event_cells ''2.0'' ''Farm(Sow{})'', event_cells ''nan'' ''Farm(Sow{})'',
              event_cells ''1.0'' ''Farm(Sow{})'']
      else if path = ''untitled.csv''
      then Table (Some [''months'', ''what''])
             [\<lparr>cells = [''months'' \<mapsto> Some ''1.0'', ''what'' \<mapsto> Some ''Farm(Sow{})''],
               extras = None\<rparr>]
      else Unreadable ''[Errno 2] No such file or directory'')"

definition example_env :: env where
  "example_env = \<lparr>files = example_files, matplotlib = None\<rparr>"

definition example_args :: "string option \<Rightarrow> args" where
  "example_args ev =
     \<lparr>csv = ''trace.csv'', out = Some ''plot.png'', show_window = False, events = ev,
      title_arg = ''Stronghold Bread Pipeline''\<rparr>"

section \<open>Example inputs with a NaN\<close>

text \<open>
  Floats with NaN, for the events file whose months cell \<open>nan\<close> Python's \<open>float\<close> parses.
  \<open>flt_less\<close> is Python's \<open><\<close>, which holds of no pair with a NaN. A list in which no
  element is below its predecessor is a single ascending run for \<open>list.sort\<close>, which
  therefore returns it as it is: \<open>sorted([2.0, nan, 1.0])\<close> is \<open>[2.0, nan, 1.0]\<close>.
  \<open>nan_sorted\<close> is \<open>sorted\<close> on such lists, the only ones that the examples sort; it
  sorts any other list by insertion.
\<close>

datatype flt = Val real | NaN

fun flt_less :: "flt \<Rightarrow> flt \<Rightarrow> bool" where
  "flt_less (Val a) (Val b) = (a < b)"
| "flt_less a b = False"

fun ascending_run :: "flt list \<Rightarrow> bool" where
  "ascending_run (x # y # zs) = (\<not> flt_less y x \<and> ascending_run (y # zs))"
| "ascending_run zs = True"

fun insert_flt :: "flt \<Rightarrow> flt list \<Rightarrow> flt list" where
  "insert_flt x [] = [x]"
| "insert_flt x (y # ys) = (if flt_less y x then y # insert_flt x ys else x # y # ys)"

definition nan_sorted :: "flt list \<Rightarrow> flt list" where
  "nan_sorted ts = (if ascending_run ts then ts else foldr insert_flt ts [])"

definition nan_float :: "string \<Rightarrow> flt option" where
  "nan_float = map_of [(''1.0'', Val 1), (''2.0'', Val 2), (''nan'', NaN)]"

section \<open>The specification's reading of the events index\<close>

text \<open>
  The occurrence that a row of the events file contributes, if any: its normalized label
  and its time. \<open>label_times\<close> lists the times of the occurrences of a label, in the order
  of the rows, duplicates included.
\<close>

definition occurrence :: "(string \<Rightarrow> 'f option) \<Rightarrow> csv_row \<Rightarrow> (string \<times> 'f) option" where
  "occurrence py_float row =
     (case event_row py_float row of
        None \<Rightarrow> None
      | Some (t, lab) \<Rightarrow> map_option (\<lambda>key. (key, t)) (normalize lab))"

definition label_times :: "(string \<Rightarrow> 'f option) \<Rightarrow> csv_row list \<Rightarrow> string \<Rightarrow> 'f list" where
  "label_times py_float rows key =
     map snd (filter (\<lambda>kt. fst kt = key) (List.map_filter (occurrence py_float) rows))"

section \<open>The specification's reading of the hover resolver\<close>

text \<open>
  An artist is hit when its hit test returns a true first component; a hit test that
  raises counts as no hit, with empty information. \<open>upto_first P xs\<close> is \<open>xs\<close> up to and
  including its first element that satisfies \<open>P\<close>: what a loop that stops at the first hit
  has probed. \<open>reported\<close> is the sample index that the hit test reports, if any, and
  \<open>insertion_point xs x\<close> the number of elements of \<open>xs\<close> before the first one that is
  not below \<open>x\<close>.
\<close>

definition hit :: "('f artist \<Rightarrow> 'f pointer \<Rightarrow> probe) \<Rightarrow> 'f pointer \<Rightarrow> 'f artist \<Rightarrow> bool" where
  "hit contains ev a = (case contains a ev of Raises \<Rightarrow> False | Result h nfo \<Rightarrow> h)"

definition hit_info :: "('f artist \<Rightarrow> 'f pointer \<Rightarrow> probe) \<Rightarrow> 'f pointer \<Rightarrow> 'f artist \<Rightarrow> info" where
  "hit_info contains ev a = (case contains a ev of Raises \<Rightarrow> Dict [] | Result h nfo \<Rightarrow> nfo)"

fun upto_first :: "('a \<Rightarrow> bool) \<Rightarrow> 'a list \<Rightarrow> 'a list" where
  "upto_first P [] = []"
| "upto_first P (x # xs) = (if P x then [x] else x # upto_first P xs)"

definition marker_artists :: "('f vline \<times> string \<times> 'f) list \<Rightarrow> 'f artist list" where
  "marker_artists hover = map (\<lambda>h. VLine (fst h)) hover"

definition reported :: "info \<Rightarrow> int option" where
  "reported nfo = (case nfo of Dict (i # inds) \<Rightarrow> Some i | _ \<Rightarrow> None)"

definition insertion_point :: "('a::linorder) list \<Rightarrow> 'a \<Rightarrow> nat" where
  "insertion_point xs x = length (takeWhile (\<lambda>v. v < x) xs)"

section \<open>Example inputs of the hover resolver\<close>

text \<open>
  The three series of the trace \<open>(0,0,0,0), (1,10,5,2), (2,10,5,2)\<close>, one marker, and a
  hit test: the Flour series is hit at the pointer position \<open>(2, 5)\<close>, where the
  hit test reports the indices 1 and 2, and a marker is hit at its own x. The formatters
  are defined on the values that the examples show.
\<close>

definition example_lines :: "real line2d list" where
  "example_lines = step_lines real_of_int [0, 1, 2] [0, 10, 10] [0, 5, 5] [0, 2, 2]"

definition example_hover :: "(real vline \<times> string \<times> real) list" where
  "example_hover = [(\<lparr>vx = 1, vcolor = ''tab:blue''\<rparr>, ''Mill.Grind'', 1)]"

definition example_contains :: "real artist \<Rightarrow> real pointer \<Rightarrow> probe" where
  "example_contains a ev =
     (case a of
        StepLine l \<Rightarrow>
          if label l = ''Flour'' \<and> px ev = 2 \<and> py ev = 5 then Result True (Dict [1, 2])
          else Result False (Dict [])
      | VLine v \<Rightarrow>
          if px ev = vx v then Result True (Dict [0]) else Result False (Dict []))"

definition example_fstr :: "real \<Rightarrow> string" where
  "example_fstr y = (if y = 0 then ''0.0'' else if y = 5 then ''5.0'' else ''10.0'')"

definition example_fmt3 :: "real \<Rightarrow> string" where
  "example_fmt3 x = (if x = 0 then ''0.000'' else if x = 1 then ''1.000'' else ''2.000'')"

definition example_canvas :: "bool \<Rightarrow> real canvas" where
  "example_canvas vis = \<lparr>annot = \<lparr>xy = (0, 0), caption = [], visible = vis\<rparr>, draws = 0\<rparr>"

section \<open>The specification's reading of the markers\<close>

text \<open>
  The label and time of an entry of \<open>hover_events\<close>, and the occurrences of an index
  taken label by label in the order of the index, each label's times in the order in
  which \<open>srt\<close> arranges them: ascending for \<open>sort\<close>.
\<close>

definition occurrence_of :: "'f vline \<times> string \<times> 'f \<Rightarrow> string \<times> 'f" where
  "occurrence_of h = (fst (snd h), snd (snd h))"

definition groups :: "('f list \<Rightarrow> 'f list) \<Rightarrow> (string \<times> 'f list) list \<Rightarrow> (string \<times> 'f) list" where
  "groups srt index = concat (map (\<lambda>(lab, ts). map (Pair lab) (srt ts)) index)"

section \<open>Properties of the normalizer\<close>

lemma item_0: "item (x # xs) 0 = Some x"
  by (simp add: item_def)

lemma item_1: "item [x, y] 1 = Some y"
  by (simp add: item_def)

lemma item_split1_0: "item (split1 c s) 0 = Some (takeWhile (\<lambda>x. x \<noteq> c) s)"
proof (cases "c \<in> set s")
  case True
  then show ?thesis by (simp add: split1_def item_0)
next
  case False
  then have eq: "takeWhile (\<lambda>x. x \<noteq> c) s = s" by auto
  from False show ?thesis by (simp add: split1_def item_0 eq)
qed

lemma item_split1_1: "c \<in> set s \<Longrightarrow> item (split1 c s) 1 = Some (tl (dropWhile (\<lambda>x. x \<noteq> c) s))"
  by (simp add: split1_def item_1)

lemma item_rsplit1_0:
  "item (rsplit1 c s) 0 = Some (if c \<in> set s then rev (tl (dropWhile (\<lambda>x. x \<noteq> c) (rev s))) else s)"
  by (simp add: rsplit1_def item_0)

lemma takeWhile_first_pos: "takeWhile (\<lambda>x. x \<noteq> c) s = substring s 0 (first_pos c s)"
  by (simp add: substring_def first_pos_def takeWhile_eq_take [symmetric])

lemma tl_dropWhile_first_pos: "tl (dropWhile (\<lambda>x. x \<noteq> c) s) = drop (Suc (first_pos c s)) s"
proof -
  have "dropWhile (\<lambda>x. x \<noteq> c) s = drop (first_pos c s) s"
    unfolding first_pos_def by (rule dropWhile_eq_drop)
  then show ?thesis
    by (simp only: tl_drop drop_Suc)
qed

lemma length_takeWhile_conj:
  "length (takeWhile (\<lambda>x. x \<noteq> a) (takeWhile (\<lambda>x. x \<noteq> b) s)) = min (first_pos b s) (first_pos a s)"
  by (induction s) (auto simp: first_pos_def)

lemma takeWhile_takeWhile_head:
  "takeWhile (\<lambda>x. x \<noteq> a) (takeWhile (\<lambda>x. x \<noteq> b) s) = substring s 0 (min (first_pos b s) (first_pos a s))"
  by (induction s) (auto simp: first_pos_def substring_def)

lemma before_last_pos:
  assumes "c \<in> set s"
  shows "rev (tl (dropWhile (\<lambda>x. x \<noteq> c) (rev s))) = take (last_pos c s) s"
proof -
  let ?P = "\<lambda>x. x \<noteq> c"
  let ?n = "length (takeWhile ?P (rev s))"
  from assms have "?n < length s"
  proof -
    from assms have "takeWhile ?P (rev s) \<noteq> rev s"
      by simp
    moreover have "?n \<le> length (rev s)" by (rule length_takeWhile_le)
    ultimately show ?thesis
      by (metis length_rev le_neq_implies_less takeWhile_eq_take take_all_iff order_refl)
  qed
  have "dropWhile ?P (rev s) = drop ?n (rev s)"
    by (rule dropWhile_eq_drop)
  then have "tl (dropWhile ?P (rev s)) = drop (Suc ?n) (rev s)"
    by (simp only: tl_drop drop_Suc)
  then have "rev (tl (dropWhile ?P (rev s))) = take (length s - Suc ?n) s"
    by (simp add: rev_drop)
  then show ?thesis by (simp add: last_pos_def)
qed

lemma takeWhile_upto: "c \<notin> set ys \<Longrightarrow> takeWhile (\<lambda>x. x \<noteq> c) (ys @ c # zs) = ys"
  by (induction ys) auto

lemma first_pos_append: "c \<notin> set ys \<Longrightarrow> first_pos c (ys @ c # zs) = length ys"
  by (simp add: first_pos_def takeWhile_upto)

lemma last_pos_append: "c \<notin> set zs \<Longrightarrow> last_pos c (ys @ c # zs) = length ys"
  by (simp add: last_pos_def takeWhile_upto)

lemma first_pos_ge: "c \<notin> set ys \<Longrightarrow> length ys \<le> first_pos c (ys @ zs)"
  by (induction ys) (auto simp: first_pos_def)

lemma actual_inner_spec:
  assumes lt: "first_pos CHR ''('' s < last_pos CHR '')'' s" and mem: "CHR '')'' \<in> set s"
  shows "actual_inner s = spec_inner s"
proof -
  from mem obtain ys zs where s: "s = ys @ CHR '')'' # zs" and zs: "CHR '')'' \<notin> set zs"
    by (auto dest: split_list_last)
  then have j: "last_pos CHR '')'' s = length ys"
    by (simp add: last_pos_append)
  have "CHR ''('' \<in> set ys"
  proof (rule ccontr)
    assume "CHR ''('' \<notin> set ys"
    then have "length ys \<le> first_pos CHR ''('' s"
      unfolding s by (rule first_pos_ge)
    with lt j show False by simp
  qed
  then obtain a b where ys: "ys = a @ CHR ''('' # b" and a: "CHR ''('' \<notin> set a"
    by (auto dest: split_list_first)
  have i: "first_pos CHR ''('' s = length a"
    using a by (simp add: s ys first_pos_append)
  have r: "drop (Suc (first_pos CHR ''('' s)) s = b @ CHR '')'' # zs"
    unfolding i by (simp add: s ys)
  have "last_pos CHR '')'' (b @ CHR '')'' # zs) = length b"
    using zs by (rule last_pos_append)
  then have "actual_inner s = b"
    by (simp add: actual_inner_def r)
  moreover have "spec_inner s = b"
    unfolding spec_inner_def substring_def r j by (simp add: i ys)
  ultimately show ?thesis by simp
qed

lemma spec_inner_empty:
  "last_pos CHR '')'' s \<le> first_pos CHR ''('' s \<Longrightarrow> spec_inner s = []"
  by (simp add: spec_inner_def substring_def)

lemma strip_Nil: "strip [] = []"
  by (simp add: strip_def)

lemma spec_head_Nil: "spec_head [] = []"
  by (simp add: spec_head_def substring_def strip_Nil)

lemma nested_eq:
  "nested s =
     Some (if CHR ''('' \<in> set s \<and> CHR '')'' \<in> set s \<and> spec_actor s \<noteq> [] \<and> actual_variant s \<noteq> []
           then Return (spec_actor s @ ''.'' @ actual_variant s) else Continue)"
proof (cases "CHR ''('' \<in> set s \<and> CHR '')'' \<in> set s")
  case False
  then show ?thesis by (auto simp: nested_def)
next
  case True
  let ?r = "drop (Suc (first_pos CHR ''('' s)) s"
  have 1: "item (split1 CHR ''('' s) 1 = Some ?r"
    using True by (simp add: item_split1_1 tl_dropWhile_first_pos)
  have 2: "item (rsplit1 CHR '')'' ?r) 0 = Some (actual_inner s)"
    by (simp add: item_rsplit1_0 before_last_pos actual_inner_def Let_def)
  show ?thesis
    using True
    by (simp add: nested_def item_split1_0 1 2 takeWhile_takeWhile_head [symmetric]
        takeWhile_first_pos [symmetric] spec_actor_def spec_head_def actual_variant_def Let_def)
qed

lemma actor_loop_find:
  "actor_loop names head =
     (case find (\<lambda>name. startswith head name \<and> length name < length head) names of
        Some name \<Rightarrow> name @ ''.'' @ drop (length name) head
      | None \<Rightarrow> head)"
  by (induction names) auto

lemma fallback_eq: "fallback s = Some (spec_fallback (spec_head s))"
proof -
  have "fallback s = Some (actor_loop [''Farm'', ''Mill'', ''Bakery''] (spec_head s))"
    by (simp add: fallback_def item_split1_0 takeWhile_takeWhile_head spec_head_def Let_def)
  then show ?thesis
    by (simp only: actor_loop_find spec_fallback_def)
qed

lemma normalize_total: "\<exists>r. normalize lab = Some r"
  by (simp add: normalize_def nested_eq fallback_eq Let_def)

lemma in_set_dropWhile: "x \<in> set xs \<Longrightarrow> \<not> P x \<Longrightarrow> x \<in> set (dropWhile P xs)"
  by (induction xs) auto

lemma in_set_strip: "\<not> isspace c \<Longrightarrow> c \<in> set (strip s) \<longleftrightarrow> c \<in> set s"
proof
  assume "c \<in> set (strip s)"
  then have "c \<in> set (dropWhile isspace (rev (dropWhile isspace s)))"
    by (simp add: strip_def)
  then have "c \<in> set (rev (dropWhile isspace s))"
    by (rule set_dropWhileD)
  then show "c \<in> set s"
    by (auto dest: set_dropWhileD)
next
  assume c: "\<not> isspace c" and "c \<in> set s"
  then have "c \<in> set (rev (dropWhile isspace s))"
    by (simp add: in_set_dropWhile)
  with c have "c \<in> set (dropWhile isspace (rev (dropWhile isspace s)))"
    by (rule in_set_dropWhile [rotated])
  then show "c \<in> set (strip s)"
    by (simp add: strip_def)
qed

lemma paren_in_strip:
  "CHR ''('' \<in> set (strip s) \<longleftrightarrow> CHR ''('' \<in> set s"
  "CHR '')'' \<in> set (strip s) \<longleftrightarrow> CHR '')'' \<in> set s"
  by (simp_all add: in_set_strip isspace_def)

lemma nested_branch_spec:
  assumes "CHR ''('' \<in> set (strip lab)" "CHR '')'' \<in> set (strip lab)"
    and "spec_actor (strip lab) \<noteq> []" "spec_variant (strip lab) \<noteq> []"
  shows "normalize lab = Some (spec_actor (strip lab) @ ''.'' @ spec_variant (strip lab))"
proof -
  let ?s = "strip lab"
  have "first_pos CHR ''('' ?s < last_pos CHR '')'' ?s"
  proof (rule ccontr)
    assume "\<not> ?thesis"
    then have "spec_inner ?s = []" by (simp add: spec_inner_empty)
    with assms(4) show False by (simp add: spec_variant_def spec_head_Nil)
  qed
  then have "actual_inner ?s = spec_inner ?s"
    using assms(2) by (rule actual_inner_spec)
  with assms show ?thesis
    by (simp add: normalize_def nested_eq spec_variant_def actual_variant_def Let_def)
qed

lemmas normalize_eval =
  normalize_def nested_def fallback_def split1_def rsplit1_def item_def strip_def
  isspace_def startswith_def

lemmas spec_eval =
  spec_actor_def spec_variant_def spec_inner_def spec_head_def substring_def
  first_pos_def last_pos_def strip_def isspace_def

text \<open>
  C2: for every label whose trimmed text \<open>s\<close> contains both \<open>(\<close> and \<open>)\<close>, with the actor
  the trimmed text before the first \<open>(\<close>, \<open>inner\<close> the text between the first \<open>(\<close> and the
  last \<open>)\<close>, and the variant the trimmed portion of \<open>inner\<close> before the leftmost of its
  first \<open>{\<close> and first \<open>(\<close>: if the actor and the variant are both non-empty, the normalizer
  returns actor, dot, variant. In particular \<open>Bakery(Bake(nested))\<close> becomes
  \<open>Bakery.Bake\<close> and \<open>Farm(Harvest{x:1})\<close> becomes \<open>Farm.Harvest\<close>.
\<close>

theorem normalize_nested:
  "(CHR ''('' \<in> set lab \<and> CHR '')'' \<in> set lab \<and>
    spec_actor (strip lab) \<noteq> [] \<and> spec_variant (strip lab) \<noteq> [] \<longrightarrow>
    normalize lab = Some (spec_actor (strip lab) @ ''.'' @ spec_variant (strip lab))) \<and>
   normalize ''Bakery(Bake(nested))'' = Some ''Bakery.Bake'' \<and>
   normalize ''Farm(Harvest{x:1})'' = Some ''Farm.Harvest''"
proof (intro conjI impI)
  assume "CHR ''('' \<in> set lab \<and> CHR '')'' \<in> set lab \<and>
    spec_actor (strip lab) \<noteq> [] \<and> spec_variant (strip lab) \<noteq> []"
  then show "normalize lab = Some (spec_actor (strip lab) @ ''.'' @ spec_variant (strip lab))"
    by (simp add: nested_branch_spec paren_in_strip)
next
  show "normalize ''Bakery(Bake(nested))'' = Some ''Bakery.Bake''"
    by (simp add: normalize_eval)
next
  show "normalize ''Farm(Harvest{x:1})'' = Some ''Farm.Harvest''"
    by (simp add: normalize_eval)
qed

theorem normalize_nested_witness:
  "CHR ''('' \<in> set ''Mill(Grind{})'' \<and> CHR '')'' \<in> set ''Mill(Grind{})'' \<and>
   spec_actor (strip ''Mill(Grind{})'') = ''Mill'' \<and>
   spec_variant (strip ''Mill(Grind{})'') = ''Grind'' \<and>
   normalize ''Mill(Grind{})'' = Some ''Mill.Grind''"
proof -
  have a: "spec_actor (strip ''Mill(Grind{})'') = ''Mill''"
    by (simp add: spec_eval)
  have v: "spec_variant (strip ''Mill(Grind{})'') = ''Grind''"
    by (simp add: spec_eval)
  show ?thesis
    using normalize_nested [of "''Mill(Grind{})''"] by (simp add: a v)
qed

lemma last_pos_occurs: "i < last_pos d s \<Longrightarrow> d \<in> set s"
proof (rule ccontr)
  assume less: "i < last_pos d s" and "d \<notin> set s"
  then have "\<forall>x \<in> set (rev s). x \<noteq> d"
    by auto
  then have all: "takeWhile (\<lambda>x. x \<noteq> d) (rev s) = rev s"
    by (simp only: takeWhile_eq_all_conv)
  have "last_pos d s = 0"
    unfolding last_pos_def all by simp
  with less show False by simp
qed

text \<open>
  C3, as the program behaves: the fallback path is reached when the label lacks \<open>(\<close> or
  \<open>)\<close>, or when the first branch finds an empty actor or an empty variant, where the
  variant is the head of the text after the first \<open>(\<close> up to the last \<open>)\<close> that follows
  it, and of all that text when no \<open>)\<close> follows; with an actor and such a variant the
  first branch returns actor, dot, variant instead. This variant is the one of C2
  whenever the last \<open>)\<close> of the label comes after its first \<open>(\<close>. On the fallback path,
  \<open>head\<close> is the trimmed portion of the trimmed label before the leftmost of its first
  \<open>{\<close> and first \<open>(\<close>; the first of Farm, Mill, Bakery that \<open>head\<close> starts with and is
  strictly longer than gives name, dot, rest of \<open>head\<close>; otherwise the result is \<open>head\<close>
  itself. In particular \<open>MillGrind\<close> becomes \<open>Mill.Grind\<close> and \<open>Oven\<close> stays \<open>Oven\<close>.
\<close>

theorem normalize_fallback:
  "(\<not> (CHR ''('' \<in> set lab \<and> CHR '')'' \<in> set lab) \<or>
    spec_actor (strip lab) = [] \<or> actual_variant (strip lab) = [] \<longrightarrow>
    normalize lab = Some (spec_fallback (spec_head (strip lab)))) \<and>
   (CHR ''('' \<in> set lab \<and> CHR '')'' \<in> set lab \<and>
    spec_actor (strip lab) \<noteq> [] \<and> actual_variant (strip lab) \<noteq> [] \<longrightarrow>
    normalize lab = Some (spec_actor (strip lab) @ ''.'' @ actual_variant (strip lab))) \<and>
   (first_pos CHR ''('' (strip lab) < last_pos CHR '')'' (strip lab) \<longrightarrow>
    actual_variant (strip lab) = spec_variant (strip lab)) \<and>
   normalize ''MillGrind'' = Some ''Mill.Grind'' \<and>
   normalize ''Oven'' = Some ''Oven''"
proof (intro conjI impI)
  assume "\<not> (CHR ''('' \<in> set lab \<and> CHR '')'' \<in> set lab) \<or>
    spec_actor (strip lab) = [] \<or> actual_variant (strip lab) = []"
  then have "nested (strip lab) = Some Continue"
    by (auto simp: nested_eq paren_in_strip)
  then show "normalize lab = Some (spec_fallback (spec_head (strip lab)))"
    by (simp add: normalize_def fallback_eq Let_def)
next
  assume "CHR ''('' \<in> set lab \<and> CHR '')'' \<in> set lab \<and>
    spec_actor (strip lab) \<noteq> [] \<and> actual_variant (strip lab) \<noteq> []"
  then have "nested (strip lab) =
    Some (Return (spec_actor (strip lab) @ ''.'' @ actual_variant (strip lab)))"
    by (simp add: nested_eq paren_in_strip)
  then show "normalize lab = Some (spec_actor (strip lab) @ ''.'' @ actual_variant (strip lab))"
    by (simp add: normalize_def Let_def)
next
  assume lt: "first_pos CHR ''('' (strip lab) < last_pos CHR '')'' (strip lab)"
  then have "CHR '')'' \<in> set (strip lab)"
    by (rule last_pos_occurs)
  with lt have "actual_inner (strip lab) = spec_inner (strip lab)"
    by (rule actual_inner_spec)
  then show "actual_variant (strip lab) = spec_variant (strip lab)"
    by (simp add: actual_variant_def spec_variant_def)
next
  show "normalize ''MillGrind'' = Some ''Mill.Grind''"
    by (simp add: normalize_eval)
next
  show "normalize ''Oven'' = Some ''Oven''"
    by (simp add: normalize_eval)
qed

theorem normalize_fallback_witness:
  "\<not> (CHR ''('' \<in> set ''BakeryBake{n:2}'' \<and> CHR '')'' \<in> set ''BakeryBake{n:2}'') \<and>
   spec_head (strip ''BakeryBake{n:2}'') = ''BakeryBake'' \<and>
   spec_fallback ''BakeryBake'' = ''Bakery.Bake'' \<and>
   normalize ''BakeryBake{n:2}'' = Some ''Bakery.Bake'' \<and>
   CHR ''('' \<in> set ''Mill(Grind{})'' \<and> CHR '')'' \<in> set ''Mill(Grind{})'' \<and>
   spec_actor (strip ''Mill(Grind{})'') = ''Mill'' \<and>
   first_pos CHR ''('' (strip ''Mill(Grind{})'') < last_pos CHR '')'' (strip ''Mill(Grind{})'') \<and>
   actual_variant (strip ''Mill(Grind{})'') = ''Grind'' \<and>
   spec_variant (strip ''Mill(Grind{})'') = ''Grind'' \<and>
   normalize ''Mill(Grind{})'' = Some ''Mill.Grind''"
proof -
  have h: "spec_head (strip ''BakeryBake{n:2}'') = ''BakeryBake''"
    by (simp add: spec_eval)
  have f: "spec_fallback ''BakeryBake'' = ''Bakery.Bake''"
    by (simp add: spec_fallback_def startswith_def)
  have 1: "normalize ''BakeryBake{n:2}'' = Some ''Bakery.Bake''"
    using normalize_fallback [of "''BakeryBake{n:2}''", THEN conjunct1] by (simp add: h f)
  have a: "spec_actor (strip ''Mill(Grind{})'') = ''Mill''"
    by (simp add: spec_eval)
  have p: "first_pos CHR ''('' (strip ''Mill(Grind{})'') < last_pos CHR '')'' (strip ''Mill(Grind{})'')"
    by (simp add: spec_eval)
  have v: "spec_variant (strip ''Mill(Grind{})'') = ''Grind''"
    by (simp add: spec_eval)
  have v': "actual_variant (strip ''Mill(Grind{})'') = ''Grind''"
    using normalize_fallback [of "''Mill(Grind{})''", THEN conjunct2, THEN conjunct2, THEN conjunct1]
      p v by simp
  have 2: "normalize ''Mill(Grind{})'' = Some ''Mill.Grind''"
    using normalize_fallback [of "''Mill(Grind{})''", THEN conjunct2, THEN conjunct1]
    by (simp add: a v')
  from h f 1 a p v v' 2 show ?thesis by simp
qed

text \<open>
  C3 as stated fails: in \<open>)a(b\<close> both parentheses occur and the text between the first
  \<open>(\<close> and the last \<open>)\<close> is empty, hence so is the variant of the specification, whose
  fallback would give the head \<open>)a\<close>. The program takes the first branch, with all the
  text after \<open>(\<close> as \<open>inner\<close>, and returns \<open>)a.b\<close>.
\<close>

theorem normalize_fallback_counterexample:
  "CHR ''('' \<in> set '')a(b'' \<and> CHR '')'' \<in> set '')a(b'' \<and>
   spec_actor (strip '')a(b'') = '')a'' \<and>
   spec_inner (strip '')a(b'') = [] \<and>
   spec_variant (strip '')a(b'') = [] \<and>
   spec_fallback (spec_head (strip '')a(b'')) = '')a'' \<and>
   normalize '')a(b'' = Some '')a.b''"
proof -
  have 1: "spec_actor (strip '')a(b'') = '')a''"
    by (simp add: spec_eval)
  have 2: "spec_inner (strip '')a(b'') = []"
    by (simp add: spec_eval)
  have 3: "spec_variant (strip '')a(b'') = []"
    by (simp add: spec_eval)
  have 4: "spec_head (strip '')a(b'') = '')a''"
    by (simp add: spec_eval)
  have 5: "spec_fallback '')a'' = '')a''"
    by (simp add: spec_fallback_def startswith_def)
  have 6: "normalize '')a(b'' = Some '')a.b''"
    by (simp add: normalize_eval)
  from 1 2 3 4 5 6 show ?thesis by simp
qed

text \<open>
  C9: the normalizer is not idempotent: \<open>MillGrind\<close> becomes \<open>Mill.Grind\<close>, and
  \<open>Mill.Grind\<close> becomes \<open>Mill..Grind\<close>.
\<close>

theorem normalize_not_idempotent:
  "normalize ''MillGrind'' = Some ''Mill.Grind'' \<and>
   normalize ''Mill.Grind'' = Some ''Mill..Grind'' \<and>
   (\<exists>s r. normalize s = Some r \<and> normalize r \<noteq> normalize s)"
proof -
  have 1: "normalize ''MillGrind'' = Some ''Mill.Grind''"
    by (simp add: normalize_eval)
  have 2: "normalize ''Mill.Grind'' = Some ''Mill..Grind''"
    by (simp add: normalize_eval)
  have "normalize ''Mill.Grind'' \<noteq> normalize ''MillGrind''"
    by (simp add: 1 2)
  with 1 2 show ?thesis by blast
qed

section \<open>Properties of the trace loader\<close>

lemma trace_row_eq:
  "trace_row pfl pin row =
     (if well_formed pfl pin row
      then Some (parsed pfl ''months'' row, parsed pin ''wheat'' row, parsed pin ''flour'' row,
                 parsed pin ''bread'' row)
      else None)"
  by (auto simp: trace_row_def well_formed_def parsed_def)

lemma trace_loop_acc:
  "trace_loop pfl pin rows (ms, ws, fs, bs) =
     (ms @ map (parsed pfl ''months'') (filter (well_formed pfl pin) rows),
      ws @ map (parsed pin ''wheat'') (filter (well_formed pfl pin) rows),
      fs @ map (parsed pin ''flour'') (filter (well_formed pfl pin) rows),
      bs @ map (parsed pin ''bread'') (filter (well_formed pfl pin) rows))"
  by (induction rows arbitrary: ms ws fs bs) (simp_all add: trace_row_eq)

lemma length_filter_compl:
  "length (filter P xs) = length xs - length (filter (\<lambda>x. \<not> P x) xs)"
  using sum_length_filter_compl [of P xs] by simp

lemmas example_eval =
  example_trace_def trace_cells_def convert_def example_float_def example_int_def

lemma example_trace_loaded:
  "load_trace example_float example_int
     (Table (Some [''months'', ''wheat'', ''flour'', ''bread'']) example_trace) =
     Inr ([0, 1, 3, 4], [0, 10, 10, 5], [0, 5, 5, 5], [0, 2, 2, 0])"
  by (simp add: load_trace_def has_headers_def trace_row_def example_eval)

lemma example_trace_malformed:
  "length (filter (\<lambda>row. \<not> well_formed example_float example_int row) example_trace) = 1"
  by (simp add: well_formed_def example_eval)

text \<open>
  C4: for a trace file with the required headers, the loader returns the four lists
  times, wheat, flour, bread: the parsed values of exactly the rows whose months cell
  parses as a float and whose wheat, flour and bread cells parse as integers, in the order
  of the rows. The lists have the same length, the number of rows less the malformed
  ones, so five rows with one malformed give four samples.
\<close>

theorem load_trace_rows:
  assumes "has_headers [''months'', ''wheat'', ''flour'', ''bread''] fieldnames"
  shows "\<exists>months wheat flour bread.
           load_trace pfl pin (Table fieldnames rows) = Inr (months, wheat, flour, bread) \<and>
           months = map (parsed pfl ''months'') (filter (well_formed pfl pin) rows) \<and>
           wheat = map (parsed pin ''wheat'') (filter (well_formed pfl pin) rows) \<and>
           flour = map (parsed pin ''flour'') (filter (well_formed pfl pin) rows) \<and>
           bread = map (parsed pin ''bread'') (filter (well_formed pfl pin) rows) \<and>
           length months = length rows - length (filter (\<lambda>row. \<not> well_formed pfl pin row) rows) \<and>
           length wheat = length months \<and> length flour = length months \<and>
           length bread = length months"
proof -
  have "length (filter (well_formed pfl pin) rows) =
        length rows - length (filter (\<lambda>row. \<not> well_formed pfl pin row) rows)"
    by (rule length_filter_compl)
  with assms show ?thesis
    by (simp add: load_trace_def trace_loop_acc)
qed

theorem load_trace_rows_witness:
  "has_headers [''months'', ''wheat'', ''flour'', ''bread'']
     (Some [''months'', ''wheat'', ''flour'', ''bread'']) \<and>
   length example_trace = 5 \<and>
   length (filter (\<lambda>row. \<not> well_formed example_float example_int row) example_trace) = 1 \<and>
   load_trace example_float example_int
     (Table (Some [''months'', ''wheat'', ''flour'', ''bread'']) example_trace) =
     Inr ([0, 1, 3, 4], [0, 10, 10, 5], [0, 5, 5, 5], [0, 2, 2, 0]) \<and>
   (\<exists>months wheat flour bread.
      load_trace example_float example_int
        (Table (Some [''months'', ''wheat'', ''flour'', ''bread'']) example_trace) =
        Inr (months, wheat, flour, bread) \<and>
      length months = 4 \<and> length wheat = 4 \<and> length flour = 4 \<and> length bread = 4)"
proof -
  have h: "has_headers [''months'', ''wheat'', ''flour'', ''bread'']
     (Some [''months'', ''wheat'', ''flour'', ''bread''])"
    by (simp add: has_headers_def)
  have l: "length example_trace = 5" by (simp add: example_trace_def)
  from load_trace_rows [OF h, of example_float example_int example_trace]
  obtain months wheat flour bread where
    "load_trace example_float example_int
        (Table (Some [''months'', ''wheat'', ''flour'', ''bread'']) example_trace) =
        Inr (months, wheat, flour, bread)"
    "length months = length example_trace -
       length (filter (\<lambda>row. \<not> well_formed example_float example_int row) example_trace)"
    "length wheat = length months" "length flour = length months" "length bread = length months"
    by blast
  then have "\<exists>months wheat flour bread.
      load_trace example_float example_int
        (Table (Some [''months'', ''wheat'', ''flour'', ''bread'']) example_trace) =
        Inr (months, wheat, flour, bread) \<and>
      length months = 4 \<and> length wheat = 4 \<and> length flour = 4 \<and> length bread = 4"
    by (simp add: l example_trace_malformed)
  with h l example_trace_malformed example_trace_loaded show ?thesis
    by blast
qed

section \<open>The events file in \<open>main\<close>\<close>

lemma example_files_simps:
  "example_files ''trace.csv'' =
     Table (Some [''months'', ''wheat'', ''flour'', ''bread'']) example_trace"
  "example_files ''events.csv'' =
     Table (Some [''months'', ''event''])
       [event_cells ''1.0'' ''Farm(Sow{})'', event_cells ''1.0'' ''Farm(Sow{})'']"
  "example_files ''pipeline.csv'' =
     Table (Some [''months'', ''event''])
       [event_cells ''2'' ''Mill(Grind{})'', event_cells ''1'' ''Farm(Sow{})'',
        event_cells ''1'' ''Mill(Grind{})'']"
  "example_files ''nan.csv'' =
     Table (Some [''months'', ''event''])
       [event_cells ''2.0'' ''Farm(Sow{})'', event_cells ''nan'' ''Farm(Sow{})'',
        event_cells ''1.0'' ''Farm(Sow{})'']"
  "example_files ''untitled.csv'' =
     Table (Some [''months'', ''what''])
       [\<lparr>cells = [''months'' \<mapsto> Some ''1.0'', ''what'' \<mapsto> Some ''Farm(Sow{})''],
         extras = None\<rparr>]"
  "example_files ''missing.csv'' = Unreadable ''[Errno 2] No such file or directory''"
  by (simp_all add: example_files_def)

lemma read_events_missing_header:
  "files_of path = Table fieldnames rows \<Longrightarrow> \<not> has_headers [''months'', ''event''] fieldnames \<Longrightarrow>
   read_events pfl files_of path =
     Inl (SystemExit ''Events CSV missing required headers months,event'')"
  by (simp add: read_events_def)

lemma read_events_unreadable:
  "files_of path = Unreadable x \<Longrightarrow> read_events pfl files_of path = Inl (Exception x)"
  by (simp add: read_events_def)

text \<open>
  C1, as the program behaves: when the events file is present and lacks a required
  header, \<open>read_events\<close> raises \<open>SystemExit\<close>, which \<open>main\<close> re-raises: the program
  ends with the message and renders nothing. An exception of class \<open>Exception\<close> from
  reading the events file is caught and logged, and the plot is rendered without
  markers.
\<close>

theorem events_header_missing:
  assumes "load_trace pfl pin (files e (csv a)) = Inr (months, wheat, flour, bread)"
    and "matplotlib e = None"
    and "given (events a) = Some path"
  shows "(files e path = Table fieldnames rows \<and> \<not> has_headers [''months'', ''event''] fieldnames \<longrightarrow>
          main pfl pin srt af e a =
            Exit (Message ''Events CSV missing required headers months,event'') []) \<and>
         (files e path = Unreadable x \<longrightarrow>
          main pfl pin srt af e a =
            Rendered
              \<lparr>lines = step_lines af months wheat flour bread,
               hover_events = [],
               stubs = [],
               title = title_arg a,
               stderr = [''Failed to read events CSV: '' @ x],
               stdout = (case given (out a) of
                           None \<Rightarrow> []
                         | Some p \<Rightarrow> [''Saved plot to '' @ p]),
               saved = given (out a),
               shown = show_window a\<rparr>)"
  using assms
  by (simp add: main_def events_overlay_def read_events_missing_header read_events_unreadable)

theorem events_header_missing_witness:
  "load_trace example_float example_int (files example_env (csv (example_args (Some ''untitled.csv'')))) =
     Inr ([0, 1, 3, 4], [0, 10, 10, 5], [0, 5, 5, 5], [0, 2, 2, 0]) \<and>
   matplotlib example_env = None \<and>
   given (events (example_args (Some ''untitled.csv''))) = Some ''untitled.csv'' \<and>
   given (events (example_args (Some ''missing.csv''))) = Some ''missing.csv'' \<and>
   \<not> has_headers [''months'', ''event''] (Some [''months'', ''what'']) \<and>
   main example_float example_int example_sorted real_of_int example_env (example_args (Some ''untitled.csv'')) =
     Exit (Message ''Events CSV missing required headers months,event'') [] \<and>
   main example_float example_int example_sorted real_of_int example_env (example_args (Some ''missing.csv'')) =
     Rendered
       \<lparr>lines = step_lines real_of_int [0, 1, 3, 4] [0, 10, 10, 5] [0, 5, 5, 5] [0, 2, 2, 0],
        hover_events = [],
        stubs = [],
        title = ''Stronghold Bread Pipeline'',
        stderr = [''Failed to read events CSV: [Errno 2] No such file or directory''],
        stdout = [''Saved plot to plot.png''],
        saved = Some ''plot.png'',
        shown = False\<rparr>"
proof -
  have t: "\<And>ev. load_trace example_float example_int (files example_env (csv (example_args ev))) =
     Inr ([0, 1, 3, 4], [0, 10, 10, 5], [0, 5, 5, 5], [0, 2, 2, 0])"
    by (simp add: example_env_def example_args_def example_files_simps example_trace_loaded)
  have m: "matplotlib example_env = None"
    by (simp add: example_env_def)
  have g1: "given (events (example_args (Some ''untitled.csv''))) = Some ''untitled.csv''"
    by (simp add: example_args_def given_def)
  have g2: "given (events (example_args (Some ''missing.csv''))) = Some ''missing.csv''"
    by (simp add: example_args_def given_def)
  have h: "\<not> has_headers [''months'', ''event''] (Some [''months'', ''what''])"
    by (simp add: has_headers_def)
  have o: "given (out (example_args (Some ''missing.csv''))) = Some ''plot.png''"
    by (simp add: example_args_def given_def)
  have f1: "files example_env ''untitled.csv'' =
     Table (Some [''months'', ''what''])
       [\<lparr>cells = [''months'' \<mapsto> Some ''1.0'', ''what'' \<mapsto> Some ''Farm(Sow{})''],
         extras = None\<rparr>]"
    by (simp add: example_env_def example_files_simps)
  have f2: "files example_env ''missing.csv'' = Unreadable ''[Errno 2] No such file or directory''"
    by (simp add: example_env_def example_files_simps)
  from events_header_missing [OF t m g1, where af = real_of_int and srt = example_sorted] f1 h
  have 1: "main example_float example_int example_sorted real_of_int example_env (example_args (Some ''untitled.csv'')) =
     Exit (Message ''Events CSV missing required headers months,event'') []"
    by blast
  from events_header_missing [OF t m g2, where af = real_of_int and srt = example_sorted] f2
  have 2: "main example_float example_int example_sorted real_of_int example_env (example_args (Some ''missing.csv'')) =
     Rendered
       \<lparr>lines = step_lines real_of_int [0, 1, 3, 4] [0, 10, 10, 5] [0, 5, 5, 5] [0, 2, 2, 0],
        hover_events = [],
        stubs = [],
        title = ''Stronghold Bread Pipeline'',
        stderr = [''Failed to read events CSV: [Errno 2] No such file or directory''],
        stdout = [''Saved plot to plot.png''],
        saved = Some ''plot.png'',
        shown = False\<rparr>"
    by (simp add: o) (simp add: example_args_def)
  from t m g1 g2 h 1 2 show ?thesis by blast
qed

text \<open>
  C1 as stated fails: with an events file whose header lacks \<open>event\<close>, the program ends
  with \<open>SystemExit\<close> and renders no plot.
\<close>

theorem events_header_missing_counterexample:
  "main example_float example_int example_sorted real_of_int example_env (example_args (Some ''untitled.csv'')) =
     Exit (Message ''Events CSV missing required headers months,event'') []"
  by (simp add: main_def events_overlay_def read_events_def has_headers_def given_def
      example_env_def example_args_def example_files_simps example_trace_loaded)

section \<open>Properties of \<open>read_events\<close>\<close>

lemma setdefault_append_keys:
  "map fst (setdefault_append d k t) = (if k \<in> set (map fst d) then map fst d else map fst d @ [k])"
  by (induction d) force+

lemma distinct_setdefault_append:
  "distinct (map fst d) \<Longrightarrow> distinct (map fst (setdefault_append d k t))"
  by (simp add: setdefault_append_keys)

lemma map_of_setdefault_append:
  "map_of (setdefault_append d k t) =
     (map_of d)(k \<mapsto> (case map_of d k of None \<Rightarrow> [t] | Some ts \<Rightarrow> ts @ [t]))"
  by (induction d) (auto simp: fun_eq_iff)

lemma label_times_Nil: "label_times pfl [] key = []"
  by (simp add: label_times_def List.map_filter_simps)

lemma label_times_Cons:
  "label_times pfl (row # rows) key =
     (case occurrence pfl row of
        None \<Rightarrow> label_times pfl rows key
      | Some (k, t) \<Rightarrow> if k = key then t # label_times pfl rows key else label_times pfl rows key)"
  by (auto simp: label_times_def List.map_filter_simps split: option.splits)

lemma events_loop_index:
  "\<exists>d'. events_loop pfl rows d = Some d' \<and>
        (distinct (map fst d) \<longrightarrow> distinct (map fst d')) \<and>
        (\<forall>key. map_of d' key =
           (if map_of d key = None \<and> label_times pfl rows key = [] then None
            else Some ((case map_of d key of None \<Rightarrow> [] | Some ts \<Rightarrow> ts) @
                       label_times pfl rows key)))"
proof (induction rows arbitrary: d)
  case Nil
  show ?case by (auto simp: label_times_Nil split: option.splits)
next
  case (Cons row rows)
  show ?case
  proof (cases "event_row pfl row")
    case None
    then have "occurrence pfl row = None" by (simp add: occurrence_def)
    then have lt: "label_times pfl (row # rows) key = label_times pfl rows key" for key
      by (simp add: label_times_Cons)
    have ev: "events_loop pfl (row # rows) d = events_loop pfl rows d"
      by (simp add: None)
    show ?thesis
      unfolding lt ev by (rule Cons.IH)
  next
    case (Some p)
    obtain t lab where p: "p = (t, lab)" by (cases p)
    obtain k where k: "normalize lab = Some k"
      using normalize_total [of lab] by blast
    have occ: "occurrence pfl row = Some (k, t)"
      by (simp add: occurrence_def Some p k)
    from Cons.IH [of "setdefault_append d k t"]
    obtain d' where d': "events_loop pfl rows (setdefault_append d k t) = Some d'"
      and dist: "distinct (map fst (setdefault_append d k t)) \<longrightarrow> distinct (map fst d')"
      and look: "\<And>key. map_of d' key =
           (if map_of (setdefault_append d k t) key = None \<and> label_times pfl rows key = []
            then None
            else Some ((case map_of (setdefault_append d k t) key of
                          None \<Rightarrow> [] | Some ts \<Rightarrow> ts) @
                       label_times pfl rows key))"
      by blast
    have 1: "events_loop pfl (row # rows) d = Some d'"
      by (simp add: Some p k d')
    have 2: "distinct (map fst d) \<longrightarrow> distinct (map fst d')"
      using dist by (simp add: distinct_setdefault_append)
    have 3: "map_of d' key =
           (if map_of d key = None \<and> label_times pfl (row # rows) key = [] then None
            else Some ((case map_of d key of None \<Rightarrow> [] | Some ts \<Rightarrow> ts) @
                       label_times pfl (row # rows) key))" for key
      by (simp add: look map_of_setdefault_append label_times_Cons occ split: option.splits)
    from 1 2 3 show ?thesis by blast
  qed
qed







section \<open>Properties of the hover resolver\<close>

lemma series_loop_Cons:
  "series_loop C fs f3 ev (l # rest) c =
     (if hit C ev (StepLine l)
      then ([StepLine l], Return (show_sample fs f3 l (hit_info C ev (StepLine l)) ev c))
      else (StepLine l # fst (series_loop C fs f3 ev rest c),
            snd (series_loop C fs f3 ev rest c)))"
  by (cases "C (StepLine l) ev") (simp_all add: hit_def hit_info_def split: prod.splits)

lemma markers_loop_Cons:
  "markers_loop C f3 ev ((l, lab, t) # rest) c =
     (if hit C ev (VLine l) then ([VLine l], Return (show_marker f3 lab t ev c))
      else (VLine l # fst (markers_loop C f3 ev rest c), snd (markers_loop C f3 ev rest c)))"
  by (cases "C (VLine l) ev") (simp_all add: hit_def split: prod.splits)

lemma series_loop_probed:
  "fst (series_loop C fs f3 ev ls c) = upto_first (hit C ev) (map StepLine ls)"
  by (induction ls) (simp_all add: series_loop_Cons del: series_loop.simps(2))

lemma series_loop_result:
  "snd (series_loop C fs f3 ev ls c) =
     (case find (\<lambda>l. hit C ev (StepLine l)) ls of
        None \<Rightarrow> Continue
      | Some l \<Rightarrow> Return (show_sample fs f3 l (hit_info C ev (StepLine l)) ev c))"
  by (induction ls) (simp_all add: series_loop_Cons del: series_loop.simps(2))

lemma markers_loop_probed:
  "fst (markers_loop C f3 ev hover c) = upto_first (hit C ev) (marker_artists hover)"
proof (induction hover)
  case Nil
  show ?case by (simp add: marker_artists_def)
next
  case (Cons h hover)
  obtain l lab t where h: "h = (l, lab, t)" by (cases h)
  from Cons show ?case
    by (simp add: h markers_loop_Cons marker_artists_def del: markers_loop.simps(2))
qed

lemma markers_loop_result:
  "snd (markers_loop C f3 ev hover c) =
     (case find (\<lambda>h. hit C ev (VLine (fst h))) hover of
        None \<Rightarrow> Continue
      | Some (l, lab, t) \<Rightarrow> Return (show_marker f3 lab t ev c))"
proof (induction hover)
  case Nil
  show ?case by simp
next
  case (Cons h hover)
  obtain l lab t where h: "h = (l, lab, t)" by (cases h)
  from Cons show ?case
    by (simp add: h markers_loop_Cons del: markers_loop.simps(2))
qed

lemma find_None_list_ex: "find P xs = None \<longleftrightarrow> \<not> list_ex P xs"
  by (induction xs) auto

lemma upto_first_no_hit: "\<not> list_ex P xs \<Longrightarrow> upto_first P xs = xs"
  by (induction xs) auto

lemma list_ex_series: "list_ex (hit C ev) (map StepLine ls) \<longleftrightarrow> list_ex (\<lambda>l. hit C ev (StepLine l)) ls"
  by (induction ls) auto

lemma list_ex_markers:
  "list_ex (hit C ev) (marker_artists hover) \<longleftrightarrow> list_ex (\<lambda>h. hit C ev (VLine (fst h))) hover"
  by (induction hover) (auto simp: marker_artists_def)

lemma on_move_probed:
  "fst (on_move C fs f3 ls hover ev c) =
     (if \<not> inaxes ev then []
      else if list_ex (hit C ev) (map StepLine ls) then upto_first (hit C ev) (map StepLine ls)
      else map StepLine ls @ upto_first (hit C ev) (marker_artists hover))"
proof -
  obtain ps r where s: "series_loop C fs f3 ev ls c = (ps, r)" by (cases "series_loop C fs f3 ev ls c")
  obtain qs r' where m: "markers_loop C f3 ev hover c = (qs, r')" by (cases "markers_loop C f3 ev hover c")
  from s have ps: "ps = upto_first (hit C ev) (map StepLine ls)"
    using series_loop_probed [of C fs f3 ev ls c] by simp
  from s have r: "r = (case find (\<lambda>l. hit C ev (StepLine l)) ls of
        None \<Rightarrow> Continue
      | Some l \<Rightarrow> Return (show_sample fs f3 l (hit_info C ev (StepLine l)) ev c))"
    using series_loop_result [of C fs f3 ev ls c] by simp
  from m have qs: "qs = upto_first (hit C ev) (marker_artists hover)"
    using markers_loop_probed [of C f3 ev hover c] by simp
  show ?thesis
  proof (cases "list_ex (hit C ev) (map StepLine ls)")
    case True
    then obtain l where "find (\<lambda>l. hit C ev (StepLine l)) ls = Some l"
      by (cases "find (\<lambda>l. hit C ev (StepLine l)) ls") (auto simp: find_None_list_ex list_ex_series)
    with True show ?thesis
      by (simp add: on_move_def s r ps)
  next
    case False
    then have "find (\<lambda>l. hit C ev (StepLine l)) ls = None"
      by (simp add: find_None_list_ex list_ex_series)
    with False show ?thesis
      by (cases r') (simp_all add: on_move_def s r m ps qs upto_first_no_hit)
  qed
qed

lemma on_move_result:
  "snd (on_move C fs f3 ls hover ev c) =
     (if \<not> inaxes ev then Some (hide c)
      else case find (\<lambda>l. hit C ev (StepLine l)) ls of
             Some l \<Rightarrow> show_sample fs f3 l (hit_info C ev (StepLine l)) ev c
           | None \<Rightarrow>
               (case find (\<lambda>h. hit C ev (VLine (fst h))) hover of
                  Some (l, lab, t) \<Rightarrow> Some (show_marker f3 lab t ev c)
                | None \<Rightarrow> Some (hide c)))"
proof -
  obtain ps r where s: "series_loop C fs f3 ev ls c = (ps, r)" by (cases "series_loop C fs f3 ev ls c")
  obtain qs r' where m: "markers_loop C f3 ev hover c = (qs, r')" by (cases "markers_loop C f3 ev hover c")
  from s have r: "r = (case find (\<lambda>l. hit C ev (StepLine l)) ls of
        None \<Rightarrow> Continue
      | Some l \<Rightarrow> Return (show_sample fs f3 l (hit_info C ev (StepLine l)) ev c))"
    using series_loop_result [of C fs f3 ev ls c] by simp
  from m have r': "r' = (case find (\<lambda>h. hit C ev (VLine (fst h))) hover of
        None \<Rightarrow> Continue
      | Some (l, lab, t) \<Rightarrow> Return (show_marker f3 lab t ev c))"
    using markers_loop_result [of C f3 ev hover c] by simp
  show ?thesis
    by (auto simp: on_move_def s m r r' split: option.splits)
qed

lemma insertion_point_eq:
  fixes xs :: "('a::linorder) list"
  assumes "r \<le> length xs" "\<And>j. j < r \<Longrightarrow> xs ! j < x" "r < length xs \<Longrightarrow> \<not> xs ! r < x"
  shows "insertion_point xs x = r"
proof -
  have "takeWhile (\<lambda>v. v < x) xs = take r xs"
    using assms by (intro takeWhile_eq_take_P_nth) auto
  with assms(1) show ?thesis by (simp add: insertion_point_def)
qed

lemma bisect_loop_sorted:
  fixes a :: "('a::linorder) list"
  assumes "sorted a" "lo \<le> hi" "hi \<le> length a"
    and "\<And>j. j < lo \<Longrightarrow> a ! j < x"
    and "\<And>j. hi \<le> j \<Longrightarrow> j < length a \<Longrightarrow> \<not> a ! j < x"
  shows "bisect_loop a x lo hi = insertion_point a x"
  using assms
proof (induction a x lo hi rule: bisect_loop.induct)
  case (1 a x lo hi)
  show ?case
  proof (cases "lo < hi")
    case False
    with "1.prems" have eq: "lo = hi" by simp
    have "insertion_point a x = lo"
      using "1.prems" eq by (intro insertion_point_eq) auto
    with False show ?thesis by simp
  next
    case True
    let ?mid = "(lo + hi) div 2"
    from True "1.prems" have mid: "lo \<le> ?mid" "?mid < hi" "?mid < length a" by auto
    show ?thesis
    proof (cases "a ! ?mid < x")
      case lt: True
      have below: "a ! j < x" if "j < ?mid + 1" for j
      proof -
        from that mid have "j \<le> ?mid" "?mid < length a" by auto
        with \<open>sorted a\<close> have "a ! j \<le> a ! ?mid" by (simp add: sorted_nth_mono)
        with lt show ?thesis by simp
      qed
      have "bisect_loop a x (?mid + 1) hi = insertion_point a x"
        using True lt mid "1.prems" below
        by (intro "1.IH"(1)) auto
      with True lt show ?thesis by (simp add: Let_def)
    next
      case ge: False
      have above: "\<not> a ! j < x" if "?mid \<le> j" "j < length a" for j
      proof -
        from that \<open>sorted a\<close> have "a ! ?mid \<le> a ! j" by (simp add: sorted_nth_mono)
        with ge show ?thesis by simp
      qed
      have "bisect_loop a x lo ?mid = insertion_point a x"
        using True ge mid "1.prems" above
        by (intro "1.IH"(2)) auto
      with True ge show ?thesis by (simp add: Let_def)
    qed
  qed
qed

lemma bisect_left_sorted:
  "sorted xs \<Longrightarrow> bisect_left xs x = insertion_point xs x"
  unfolding bisect_left_def by (rule bisect_loop_sorted) auto

lemma insertion_point_exact:
  fixes xs :: "('a::linorder) list"
  assumes "sorted_wrt (<) xs" "k < length xs"
  shows "insertion_point xs (xs ! k) = k"
  using assms by (intro insertion_point_eq) (auto simp: sorted_wrt_nth_less)

lemma item_nat: "k < length xs \<Longrightarrow> item xs (int k) = Some (xs ! k)"
  by (simp add: item_def)

lemma show_sample_eq:
  "show_sample fs f3 l nfo ev c =
     (case (item (xdata l) (sample_index nfo (xdata l) (px ev)),
            item (ydata l) (sample_index nfo (xdata l) (px ev))) of
        (Some x, Some y) \<Rightarrow>
          Some (c\<lparr>annot := \<lparr>xy = (x, y),
                            caption = label l @ '': '' @ fs y @ [CHR 0x0A] @ ''@ t='' @ f3 x,
                            visible = True\<rparr>,
                  draws := Suc (draws c)\<rparr>)
      | _ \<Rightarrow> None)"
  by (simp add: show_sample_def update_annot_def Let_def split: option.splits)

lemma sample_index_eq:
  "sample_index nfo xd x =
     (case reported nfo of
        Some i \<Rightarrow> i
      | None \<Rightarrow> max 0 (min (int (length xd) - 1) (int (bisect_left xd x))))"
  by (simp add: sample_index_def reported_def)

lemma set_upto_first: "set (upto_first P xs) \<subseteq> set xs"
  by (induction xs) auto

lemma step_lines_labels:
  "map label (step_lines af months wheat flour bread) =
     (if months = [] then [] else [''Wheat'', ''Flour'', ''Bread''])"
  by (simp add: step_lines_def)

text \<open>
  C6: a pointer event inside the axes probes the data series first, in the order of
  \<open>lines\<close>, which \<open>main\<close> builds as Wheat, Flour, Bread; at the first series hit the
  handler shows that sample and returns, and no marker has been probed. The markers are
  probed, in the order of \<open>hover_events\<close>, only when no series is hit, and the first marker
  hit is shown. An event outside the axes probes nothing.
\<close>

theorem on_move_priority:
  "fst (on_move C fs f3 ls hover ev c) =
     (if \<not> inaxes ev then []
      else if list_ex (hit C ev) (map StepLine ls) then upto_first (hit C ev) (map StepLine ls)
      else map StepLine ls @ upto_first (hit C ev) (marker_artists hover)) \<and>
   snd (on_move C fs f3 ls hover ev c) =
     (if \<not> inaxes ev then Some (hide c)
      else case find (\<lambda>l. hit C ev (StepLine l)) ls of
             Some l \<Rightarrow> show_sample fs f3 l (hit_info C ev (StepLine l)) ev c
           | None \<Rightarrow>
               (case find (\<lambda>h. hit C ev (VLine (fst h))) hover of
                  Some (l, lab, t) \<Rightarrow> Some (show_marker f3 lab t ev c)
                | None \<Rightarrow> Some (hide c))) \<and>
   (list_ex (hit C ev) (map StepLine ls) \<longrightarrow>
    set (fst (on_move C fs f3 ls hover ev c)) \<inter> set (marker_artists hover) = {}) \<and>
   map label (step_lines af months wheat flour bread) =
     (if months = [] then [] else [''Wheat'', ''Flour'', ''Bread''])"
proof (intro conjI impI)
  assume h: "list_ex (hit C ev) (map StepLine ls)"
  have "set (fst (on_move C fs f3 ls hover ev c)) \<subseteq> set (map StepLine ls)"
    using h set_upto_first [of "hit C ev" "map StepLine ls"] by (simp add: on_move_probed)
  then show "set (fst (on_move C fs f3 ls hover ev c)) \<inter> set (marker_artists hover) = {}"
    by (auto simp: marker_artists_def)
qed (rule on_move_probed on_move_result step_lines_labels)+

lemma example_lines_eq:
  "example_lines =
     [\<lparr>label = ''Wheat'', xdata = [0, 1, 2], ydata = [0, 10, 10]\<rparr>,
      \<lparr>label = ''Flour'', xdata = [0, 1, 2], ydata = [0, 5, 5]\<rparr>,
      \<lparr>label = ''Bread'', xdata = [0, 1, 2], ydata = [0, 2, 2]\<rparr>]"
  by (simp add: example_lines_def step_lines_def)

lemma example_hit_flour:
  "hit example_contains \<lparr>inaxes = True, px = 2, py = 5\<rparr> (StepLine l) \<longleftrightarrow> label l = ''Flour''"
  by (simp add: hit_def example_contains_def)

lemma example_info_flour:
  "hit_info example_contains \<lparr>inaxes = True, px = 2, py = 5\<rparr>
     (StepLine \<lparr>label = ''Flour'', xdata = xs, ydata = ys\<rparr>) = Dict [1, 2]"
  by (simp add: hit_info_def example_contains_def)

lemma example_show_flour:
  "show_sample example_fstr example_fmt3 \<lparr>label = ''Flour'', xdata = [0, 1, 2], ydata = [0, 5, 5]\<rparr>
     (Dict [1, 2]) \<lparr>inaxes = True, px = 2, py = 5\<rparr> (example_canvas False) =
   Some \<lparr>annot = \<lparr>xy = (1, 5), caption = ''Flour: 5.0'' @ [CHR 0x0A] @ ''@ t=1.000'', visible = True\<rparr>,
         draws = 1\<rparr>"
  by (simp add: show_sample_def sample_index_def item_def update_annot_def example_canvas_def
      example_fstr_def example_fmt3_def)

theorem on_move_priority_witness:
  "list_ex (hit example_contains \<lparr>inaxes = True, px = 2, py = 5\<rparr>) (map StepLine example_lines) \<and>
   fst (on_move example_contains example_fstr example_fmt3 example_lines example_hover
          \<lparr>inaxes = True, px = 2, py = 5\<rparr> (example_canvas False)) =
     [StepLine \<lparr>label = ''Wheat'', xdata = [0, 1, 2], ydata = [0, 10, 10]\<rparr>,
      StepLine \<lparr>label = ''Flour'', xdata = [0, 1, 2], ydata = [0, 5, 5]\<rparr>] \<and>
   snd (on_move example_contains example_fstr example_fmt3 example_lines example_hover
          \<lparr>inaxes = True, px = 2, py = 5\<rparr> (example_canvas False)) =
     Some \<lparr>annot = \<lparr>xy = (1, 5), caption = ''Flour: 5.0'' @ [CHR 0x0A] @ ''@ t=1.000'',
                     visible = True\<rparr>,
           draws = 1\<rparr> \<and>
   set (fst (on_move example_contains example_fstr example_fmt3 example_lines example_hover
          \<lparr>inaxes = True, px = 2, py = 5\<rparr> (example_canvas False))) \<inter>
     set (marker_artists example_hover) = {}"
proof -
  have h: "list_ex (hit example_contains \<lparr>inaxes = True, px = 2, py = 5\<rparr>) (map StepLine example_lines)"
    by (simp add: example_lines_eq example_hit_flour)
  note p = on_move_priority [of example_contains example_fstr example_fmt3 example_lines
      example_hover "\<lparr>inaxes = True, px = 2, py = 5\<rparr>" "example_canvas False"
      real_of_int "[0, 1, 2]" "[0, 10, 10]" "[0, 5, 5]" "[0, 2, 2]"]
  from p h have 1: "fst (on_move example_contains example_fstr example_fmt3 example_lines example_hover
          \<lparr>inaxes = True, px = 2, py = 5\<rparr> (example_canvas False)) =
     [StepLine \<lparr>label = ''Wheat'', xdata = [0, 1, 2], ydata = [0, 10, 10]\<rparr>,
      StepLine \<lparr>label = ''Flour'', xdata = [0, 1, 2], ydata = [0, 5, 5]\<rparr>]"
    by (simp add: example_lines_eq example_hit_flour)
  from p have 2: "snd (on_move example_contains example_fstr example_fmt3 example_lines example_hover
          \<lparr>inaxes = True, px = 2, py = 5\<rparr> (example_canvas False)) =
     Some \<lparr>annot = \<lparr>xy = (1, 5), caption = ''Flour: 5.0'' @ [CHR 0x0A] @ ''@ t=1.000'',
                     visible = True\<rparr>,
           draws = 1\<rparr>"
    by (simp add: example_lines_eq example_hit_flour example_info_flour example_show_flour)
  from p h have 3: "set (fst (on_move example_contains example_fstr example_fmt3 example_lines example_hover
          \<lparr>inaxes = True, px = 2, py = 5\<rparr> (example_canvas False))) \<inter>
     set (marker_artists example_hover) = {}"
    by blast
  from h 1 2 3 show ?thesis by blast
qed

text \<open>
  C7, as the program behaves: when a data series is hit, the index shown is the first
  index that the hit test reports, if it reports one, and otherwise the insertion point
  \<open>bisect_left\<close> of the pointer's x among the x data, clamped to the indices of the data.
  The annotation is placed at that sample's own \<open>(t, value)\<close>, with the series name, the
  value and the time to three decimals as text; an index out of range raises. For sorted
  x data \<open>bisect_left\<close> is the insertion point; when the hit test reports no index
  and the x data are strictly ascending, a pointer whose x is a sample's x shows that
  sample.
\<close>

theorem show_sample_anchor:
  "(let ind = (case reported nfo of
                 Some i \<Rightarrow> i
               | None \<Rightarrow> max 0 (min (int (length (xdata l)) - 1)
                                  (int (bisect_left (xdata l) (px ev)))))
    in show_sample fs f3 l nfo ev c =
         (case (item (xdata l) ind, item (ydata l) ind) of
            (Some x, Some y) \<Rightarrow>
              Some (c\<lparr>annot := \<lparr>xy = (x, y),
                                caption = label l @ '': '' @ fs y @ [CHR 0x0A] @ ''@ t='' @ f3 x,
                                visible = True\<rparr>,
                      draws := Suc (draws c)\<rparr>)
          | _ \<Rightarrow> None)) \<and>
   (sorted (xdata l) \<longrightarrow> bisect_left (xdata l) (px ev) = insertion_point (xdata l) (px ev)) \<and>
   (reported nfo = None \<and> sorted_wrt (<) (xdata l) \<and> k < length (xdata l) \<and>
    k < length (ydata l) \<and> px ev = xdata l ! k \<longrightarrow>
    show_sample fs f3 l nfo ev c =
      Some (c\<lparr>annot := \<lparr>xy = (xdata l ! k, ydata l ! k),
                        caption = label l @ '': '' @ fs (ydata l ! k) @ [CHR 0x0A] @ ''@ t='' @
                                  f3 (xdata l ! k),
                        visible = True\<rparr>,
              draws := Suc (draws c)\<rparr>))"
proof (intro conjI impI)
  show "let ind = (case reported nfo of
                 Some i \<Rightarrow> i
               | None \<Rightarrow> max 0 (min (int (length (xdata l)) - 1)
                                  (int (bisect_left (xdata l) (px ev)))))
    in show_sample fs f3 l nfo ev c =
         (case (item (xdata l) ind, item (ydata l) ind) of
            (Some x, Some y) \<Rightarrow>
              Some (c\<lparr>annot := \<lparr>xy = (x, y),
                                caption = label l @ '': '' @ fs y @ [CHR 0x0A] @ ''@ t='' @ f3 x,
                                visible = True\<rparr>,
                      draws := Suc (draws c)\<rparr>)
          | _ \<Rightarrow> None)"
    unfolding Let_def sample_index_eq [symmetric] by (rule show_sample_eq)
next
  assume "sorted (xdata l)"
  then show "bisect_left (xdata l) (px ev) = insertion_point (xdata l) (px ev)"
    by (rule bisect_left_sorted)
next
  assume a: "reported nfo = None \<and> sorted_wrt (<) (xdata l) \<and> k < length (xdata l) \<and>
    k < length (ydata l) \<and> px ev = xdata l ! k"
  then have "sorted (xdata l)"
    by (simp add: strict_sorted_iff)
  then have "bisect_left (xdata l) (px ev) = insertion_point (xdata l) (xdata l ! k)"
    using a by (simp add: bisect_left_sorted)
  also have "\<dots> = k"
    using a by (simp add: insertion_point_exact)
  finally have "sample_index nfo (xdata l) (px ev) = int k"
    using a by (simp add: sample_index_eq)
  then show "show_sample fs f3 l nfo ev c =
      Some (c\<lparr>annot := \<lparr>xy = (xdata l ! k, ydata l ! k),
                        caption = label l @ '': '' @ fs (ydata l ! k) @ [CHR 0x0A] @ ''@ t='' @
                                  f3 (xdata l ! k),
                        visible = True\<rparr>,
              draws := Suc (draws c)\<rparr>)"
    using a by (simp add: show_sample_eq item_nat)
qed

theorem show_sample_anchor_witness:
  "reported (Dict []) = None \<and> sorted_wrt (<) [0, 1, 2 :: real] \<and> sorted [0, 1, 2 :: real] \<and>
   bisect_left [0, 1, 2 :: real] 1 = insertion_point [0, 1, 2 :: real] 1 \<and>
   show_sample example_fstr example_fmt3
     \<lparr>label = ''Flour'', xdata = [0, 1, 2], ydata = [0, 5, 5]\<rparr> (Dict [])
     \<lparr>inaxes = True, px = 1, py = 5\<rparr> (example_canvas False) =
   Some \<lparr>annot = \<lparr>xy = (1, 5), caption = ''Flour: 5.0'' @ [CHR 0x0A] @ ''@ t=1.000'',
                   visible = True\<rparr>,
         draws = 1\<rparr>"
proof -
  have r: "reported (Dict []) = None" by (simp add: reported_def)
  have s: "sorted_wrt (<) [0, 1, 2 :: real]" by simp
  have s': "sorted [0, 1, 2 :: real]" by simp
  note a = show_sample_anchor [where nfo = "Dict []"
      and l = "\<lparr>label = ''Flour'', xdata = [0, 1, 2 :: real], ydata = [0, 5, 5]\<rparr>"
      and ev = "\<lparr>inaxes = True, px = 1, py = 5\<rparr>" and fs = example_fstr
      and ?f3.0 = example_fmt3 and c = "example_canvas False" and k = 1]
  have b: "bisect_left [0, 1, 2 :: real] 1 = insertion_point [0, 1, 2 :: real] 1"
    using a [THEN conjunct2, THEN conjunct1] s' by simp
  have pre: "reported (Dict []) = None \<and>
     sorted_wrt (<) (xdata \<lparr>label = ''Flour'', xdata = [0, 1, 2 :: real], ydata = [0, 5, 5 :: real]\<rparr>) \<and>
     1 < length (xdata \<lparr>label = ''Flour'', xdata = [0, 1, 2 :: real], ydata = [0, 5, 5 :: real]\<rparr>) \<and>
     1 < length (ydata \<lparr>label = ''Flour'', xdata = [0, 1, 2 :: real], ydata = [0, 5, 5 :: real]\<rparr>) \<and>
     px \<lparr>inaxes = True, px = 1 :: real, py = 5\<rparr> =
       xdata \<lparr>label = ''Flour'', xdata = [0, 1, 2 :: real], ydata = [0, 5, 5 :: real]\<rparr> ! 1"
    by (simp add: reported_def)
  have "show_sample example_fstr example_fmt3
     \<lparr>label = ''Flour'', xdata = [0, 1, 2], ydata = [0, 5, 5]\<rparr> (Dict [])
     \<lparr>inaxes = True, px = 1, py = 5\<rparr> (example_canvas False) =
   Some \<lparr>annot = \<lparr>xy = (1, 5), caption = ''Flour: 5.0'' @ [CHR 0x0A] @ ''@ t=1.000'',
                   visible = True\<rparr>,
         draws = 1\<rparr>"
    using a [THEN conjunct2, THEN conjunct2, THEN mp, OF pre]
    by (simp add: example_canvas_def example_fstr_def example_fmt3_def)
  with r s s' b show ?thesis by blast
qed

text \<open>
  C7 as stated fails: the pointer is exactly at the third sample \<open>(2, 5)\<close> of the Flour
  series, the hit test reports the indices 1 and 2, and the annotation is placed at the
  second sample \<open>(1, 5)\<close>.
\<close>

theorem show_sample_anchor_counterexample:
  "item (xdata (example_lines ! 1)) 2 = Some 2 \<and>
   item (ydata (example_lines ! 1)) 2 = Some 5 \<and>
   hit example_contains \<lparr>inaxes = True, px = 2, py = 5\<rparr> (StepLine (example_lines ! 1)) \<and>
   hit_info example_contains \<lparr>inaxes = True, px = 2, py = 5\<rparr> (StepLine (example_lines ! 1)) =
     Dict [1, 2] \<and>
   show_sample example_fstr example_fmt3 (example_lines ! 1) (Dict [1, 2])
     \<lparr>inaxes = True, px = 2, py = 5\<rparr> (example_canvas False) =
   Some \<lparr>annot = \<lparr>xy = (1, 5), caption = ''Flour: 5.0'' @ [CHR 0x0A] @ ''@ t=1.000'',
                   visible = True\<rparr>,
         draws = 1\<rparr> \<and>
   snd (on_move example_contains example_fstr example_fmt3 example_lines example_hover
          \<lparr>inaxes = True, px = 2, py = 5\<rparr> (example_canvas False)) =
   Some \<lparr>annot = \<lparr>xy = (1, 5), caption = ''Flour: 5.0'' @ [CHR 0x0A] @ ''@ t=1.000'',
                   visible = True\<rparr>,
         draws = 1\<rparr>"
proof -
  have "snd (on_move example_contains example_fstr example_fmt3 example_lines example_hover
          \<lparr>inaxes = True, px = 2, py = 5\<rparr> (example_canvas False)) =
   Some \<lparr>annot = \<lparr>xy = (1, 5), caption = ''Flour: 5.0'' @ [CHR 0x0A] @ ''@ t=1.000'',
                   visible = True\<rparr>,
         draws = 1\<rparr>"
    by (simp add: on_move_result example_lines_eq example_hit_flour example_info_flour
        example_show_flour)
  then show ?thesis
    by (simp add: example_lines_eq example_hit_flour example_info_flour example_show_flour
        item_def)
qed

lemma hide_simps:
  "visible (annot (hide c)) = False"
  "xy (annot (hide c)) = xy (annot c)"
  "caption (annot (hide c)) = caption (annot c)"
  "draws (hide c) = (if visible (annot c) then Suc (draws c) else draws c)"
  "hide (hide c) = hide c"
  by (simp_all add: hide_def)

lemma hide_hidden: "\<not> visible (annot c) \<Longrightarrow> hide c = c"
  by (simp add: hide_def)

lemma on_move_miss:
  assumes "\<not> inaxes ev \<or> \<not> list_ex (hit C ev) (map StepLine ls @ marker_artists hover)"
  shows "snd (on_move C fs f3 ls hover ev c) = Some (hide c)"
proof (cases "inaxes ev")
  case False
  then show ?thesis by (simp add: on_move_result)
next
  case True
  with assms have "find (\<lambda>l. hit C ev (StepLine l)) ls = None"
    "find (\<lambda>h. hit C ev (VLine (fst h))) hover = None"
    by (simp_all add: find_None_list_ex list_ex_series list_ex_markers)
  then show ?thesis by (simp add: on_move_result)
qed

text \<open>
  C8: when the pointer is outside the axes, or no series and no marker is hit, the handler
  hides the single annotation: it is invisible afterwards, its position and text stay,
  and a redraw is requested exactly when it was visible. A further event without a hit
  then leaves the canvas as it is and requests no redraw.
\<close>

theorem on_move_no_hit:
  assumes "\<not> inaxes ev \<or> \<not> list_ex (hit C ev) (map StepLine ls @ marker_artists hover)"
  shows "snd (on_move C fs f3 ls hover ev c) = Some (hide c) \<and>
         \<not> visible (annot (hide c)) \<and>
         xy (annot (hide c)) = xy (annot c) \<and>
         caption (annot (hide c)) = caption (annot c) \<and>
         draws (hide c) = (if visible (annot c) then Suc (draws c) else draws c) \<and>
         (\<not> visible (annot c) \<longrightarrow> hide c = c) \<and>
         (\<not> inaxes ev' \<or> \<not> list_ex (hit C ev') (map StepLine ls @ marker_artists hover) \<longrightarrow>
          snd (on_move C fs f3 ls hover ev' (hide c)) = Some (hide c))"
  using assms by (simp add: on_move_miss hide_simps hide_hidden)

theorem on_move_no_hit_witness:
  "\<not> list_ex (hit example_contains \<lparr>inaxes = True, px = 0, py = 7\<rparr>)
       (map StepLine example_lines @ marker_artists example_hover) \<and>
   \<not> inaxes \<lparr>inaxes = False, px = 2, py = 5 :: real\<rparr> \<and>
   snd (on_move example_contains example_fstr example_fmt3 example_lines example_hover
          \<lparr>inaxes = True, px = 0, py = 7\<rparr> (example_canvas True)) =
     Some \<lparr>annot = \<lparr>xy = (0, 0), caption = [], visible = False\<rparr>, draws = 1\<rparr> \<and>
   snd (on_move example_contains example_fstr example_fmt3 example_lines example_hover
          \<lparr>inaxes = False, px = 2, py = 5\<rparr>
          \<lparr>annot = \<lparr>xy = (0, 0), caption = [], visible = False\<rparr>, draws = 1\<rparr>) =
     Some \<lparr>annot = \<lparr>xy = (0, 0), caption = [], visible = False\<rparr>, draws = 1\<rparr>"
proof -
  have n: "\<not> list_ex (hit example_contains \<lparr>inaxes = True, px = 0, py = 7\<rparr>)
       (map StepLine example_lines @ marker_artists example_hover)"
    by (simp add: example_lines_eq example_hover_def marker_artists_def hit_def
        example_contains_def)
  have o: "\<not> inaxes \<lparr>inaxes = False, px = 2, py = 5 :: real\<rparr>" by simp
  have h: "hide (example_canvas True) =
     \<lparr>annot = \<lparr>xy = (0, 0), caption = [], visible = False\<rparr>, draws = 1\<rparr>"
    by (simp add: hide_def example_canvas_def)
  note t = on_move_no_hit [where ev = "\<lparr>inaxes = True, px = 0, py = 7\<rparr>"
      and C = example_contains and ls = example_lines and hover = example_hover
      and fs = example_fstr and ?f3.0 = example_fmt3 and c = "example_canvas True"
      and ev' = "\<lparr>inaxes = False, px = 2, py = 5\<rparr>", OF disjI2 [OF n]]
  from t have 1: "snd (on_move example_contains example_fstr example_fmt3 example_lines
          example_hover \<lparr>inaxes = True, px = 0, py = 7\<rparr> (example_canvas True)) =
     Some (hide (example_canvas True))"
    by (rule conjunct1)
  from t o have 2: "snd (on_move example_contains example_fstr example_fmt3 example_lines
          example_hover \<lparr>inaxes = False, px = 2, py = 5\<rparr> (hide (example_canvas True))) =
     Some (hide (example_canvas True))"
    by blast
  from n o 1 2 show ?thesis
    unfolding h by blast
qed

section \<open>Properties of the markers\<close>

lemma marker_loop_eq:
  "marker_loop color lab ts hover =
     hover @ map (\<lambda>t. (\<lparr>vx = t, vcolor = color\<rparr>, lab, t)) ts"
  by (induction ts arbitrary: hover) simp_all

lemma overlay_loop_eq:
  "overlay_loop srt i index (hover, legend) =
     (hover @ concat (map (\<lambda>(j, lab, ts).
                 map (\<lambda>t. (\<lparr>vx = t, vcolor = palette ! (j mod length palette)\<rparr>, lab, t)) (srt ts))
               (enumerate i index)),
      legend @ map (\<lambda>(j, lab, ts).
                 (palette ! (j mod length palette), lab @ '' ('' @ str_nat (length ts) @ '')''))
               (enumerate i index))"
proof (induction index arbitrary: i hover legend)
  case Nil
  show ?case by simp
next
  case (Cons e index)
  obtain lab ts where e: "e = (lab, ts)" by (cases e)
  show ?case
    by (simp add: e Cons.IH marker_loop_eq Let_def)
qed

lemma overlay_occurrences:
  "map occurrence_of
     (concat (map (\<lambda>(j, lab, ts).
                 map (\<lambda>t. (\<lparr>vx = t, vcolor = col j\<rparr>, lab, t)) (srt ts))
               (enumerate i index))) = groups srt index"
  by (induction index arbitrary: i) (auto simp: groups_def occurrence_of_def comp_def)

lemma groups_sorted:
  "list_all (\<lambda>(lab, ts). srt ts = sort ts) index \<Longrightarrow> groups srt index = groups sort index"
  by (induction index) (auto simp: groups_def)

lemma overlay_positions:
  "list_all (\<lambda>h. vx (fst h) = snd (snd h))
     (concat (map (\<lambda>(j, lab, ts).
                 map (\<lambda>t. (\<lparr>vx = t, vcolor = col j\<rparr>, lab, t)) (srt ts))
               (enumerate i index)))"
  by (induction index arbitrary: i) (auto simp: list_all_iff)

lemma overlay_legend:
  "map snd (map (\<lambda>(j, lab, ts). (col j, lab @ '' ('' @ str_nat (length ts) @ '')''))
              (enumerate i index)) =
   map (\<lambda>(lab, ts). lab @ '' ('' @ str_nat (length ts) @ '')'') index"
  by (induction index arbitrary: i) auto

lemma sorted_group: "sorted (map (Pair (lab :: string)) (sort (ts :: ('f::linorder) list)))"
  by (simp add: sorted_map)

lemma groups_labels: "p \<in> set (groups srt index) \<Longrightarrow> fst p \<in> set (map fst index)"
  by (force simp: groups_def)

lemma sorted_groups:
  "sorted_wrt (<) (map fst index) \<Longrightarrow> sorted (groups sort index)"
proof (induction index)
  case Nil
  show ?case by (simp add: groups_def)
next
  case (Cons e index)
  obtain lab ts where e: "e = (lab, ts)" by (cases e)
  from Cons.prems have below: "\<And>l. l \<in> set (map fst index) \<Longrightarrow> lab < l" and
    rest: "sorted_wrt (<) (map fst index)"
    by (auto simp: e)
  have g: "groups sort (e # index) = map (Pair lab) (sort ts) @ groups sort index"
    by (simp add: groups_def e)
  have "x \<le> y" if "x \<in> set (map (Pair lab) (sort ts))" "y \<in> set (groups sort index)" for x y
  proof -
    from that(2) have "lab < fst y" by (intro below groups_labels)
    moreover from that(1) have "fst x = lab" by auto
    ultimately show ?thesis by (cases x, cases y) simp
  qed
  with Cons.IH [OF rest] show ?case
    unfolding g by (simp only: sorted_append sorted_group) blast
qed

lemma distinct_keys_sorted:
  "distinct (map fst index) \<Longrightarrow> distinct (map fst (sort_key fst index))"
  by (simp add: distinct_map)

lemma sorted_keys:
  assumes "distinct (map fst (index :: (string \<times> 'f list) list))"
  shows "sorted_wrt (<) (map fst (sort_key fst index))"
proof -
  have "sorted (map fst (sort_key fst index))"
    by (rule sorted_sort_key)
  moreover have "distinct (map fst (sort_key fst index))"
    using assms by (rule distinct_keys_sorted)
  ultimately show ?thesis by (simp add: strict_sorted_iff)
qed

lemma count_group:
  "distinct (map fst index) \<Longrightarrow> (lab, ts) \<in> set index \<Longrightarrow>
   length (filter (\<lambda>p. fst p = lab) (groups sort index)) = length ts"
proof (induction index)
  case Nil
  then show ?case by simp
next
  case (Cons e index)
  obtain l us where e: "e = (l, us)" by (cases e)
  have g: "groups sort (e # index) = map (Pair l) (sort us) @ groups sort index"
    by (simp add: groups_def e)
  have none: "filter (\<lambda>p. fst p = lab) (groups sort index) = []" if "lab \<notin> set (map fst index)"
    using that groups_labels [of _ sort index] by (auto simp: filter_empty_conv)
  show ?case
  proof (cases "l = lab")
    case True
    with Cons.prems have "lab \<notin> set (map fst index)" "us = ts"
      by (auto simp: e rev_image_eqI)
    then show ?thesis
      by (simp add: g True none comp_def)
  next
    case False
    with Cons.prems have "(lab, ts) \<in> set index" "distinct (map fst index)"
      by (auto simp: e)
    with Cons.IH have "length (filter (\<lambda>p. fst p = lab) (groups sort index)) = length ts" by simp
    with False show ?thesis
      by (simp add: g comp_def)
  qed
qed

lemma read_events_distinct:
  "read_events pfl fs path = Inr index \<Longrightarrow> distinct (map fst index)"
proof -
  assume r: "read_events pfl fs path = Inr index"
  then obtain fieldnames rows where "fs path = Table fieldnames rows"
    "events_loop pfl rows [] = Some index"
    by (auto simp: read_events_def split: csv_file.splits if_splits option.splits)
  with events_loop_index [of pfl rows "[]"] show ?thesis
    by auto
qed

lemma events_overlay_read:
  "given e = Some path \<Longrightarrow> read_events pfl fs path = Inr index \<Longrightarrow>
   events_overlay pfl srt fs e = Inr ([], overlay_loop srt 0 (sort_key fst index) ([], []))"
  by (simp add: events_overlay_def)

text \<open>
  C10, as the program behaves: for the index that \<open>read_events\<close> returns, the markers are
  created label by label in strictly ascending order of the labels and, within a label,
  in the order in which \<open>sorted\<close> returns its times; each marker stands at its time, and
  each label's legend stub reads label, space, count in parentheses, where the count is
  the length of the label's list of times. When no series is hit, the handler probes the
  markers in the order of their creation, up to the first hit. When none of the times is
  NaN, \<open>sorted\<close> returning a list without NaN in ascending order, the times within a
  label are ascending: the sequence of the (label, time) pairs of the markers is sorted
  lexicographically, and the count is the number of the label's markers.
\<close>

theorem overlay_order:
  fixes index :: "(string \<times> ('f::linorder) list) list"
  assumes "given e = Some path" and "read_events pfl fs path = Inr index"
  shows "\<exists>hover legend.
           events_overlay pfl srt fs e = Inr ([], hover, legend) \<and>
           map occurrence_of hover = groups srt (sort_key fst index) \<and>
           sorted_wrt (<) (map fst (sort_key fst index)) \<and>
           list_all (\<lambda>h. vx (fst h) = snd (snd h)) hover \<and>
           map snd legend =
             map (\<lambda>(lab, ts). lab @ '' ('' @ str_nat (length ts) @ '')'') (sort_key fst index) \<and>
           (inaxes ev \<and> \<not> list_ex (hit C ev) (map StepLine ls) \<longrightarrow>
            fst (on_move C fstr f3 ls hover ev c) =
              map StepLine ls @ upto_first (hit C ev) (marker_artists hover)) \<and>
           ((\<forall>ts. \<not> list_ex isnan ts \<longrightarrow> srt ts = sort ts) \<and>
            list_all (\<lambda>(lab, ts). \<not> list_ex isnan ts) index \<longrightarrow>
            map occurrence_of hover = groups sort (sort_key fst index) \<and>
            sorted (map occurrence_of hover) \<and>
            list_all (\<lambda>(lab, ts). length (filter (\<lambda>h. fst (snd h) = lab) hover) = length ts)
              index)"
proof -
  let ?col = "\<lambda>j. palette ! (j mod length palette)"
  let ?items = "sort_key fst index"
  define hover where "hover =
    concat (map (\<lambda>(j, lab, ts). map (\<lambda>t. (\<lparr>vx = t, vcolor = ?col j\<rparr>, lab, t)) (srt ts))
              (enumerate 0 ?items))"
  define legend where "legend =
    map (\<lambda>(j, lab, ts). (?col j, lab @ '' ('' @ str_nat (length ts) @ '')''))
      (enumerate 0 ?items)"
  have d: "distinct (map fst index)"
    using assms(2) by (rule read_events_distinct)
  then have d': "distinct (map fst ?items)"
    by (rule distinct_keys_sorted)
  have 0: "events_overlay pfl srt fs e = Inr ([], hover, legend)"
    using assms(1, 2) by (simp add: events_overlay_read overlay_loop_eq hover_def legend_def)
  have 1: "map occurrence_of hover = groups srt ?items"
    unfolding hover_def by (rule overlay_occurrences)
  have 2: "sorted_wrt (<) (map fst ?items)"
    using d by (rule sorted_keys)
  have 3: "list_all (\<lambda>h. vx (fst h) = snd (snd h)) hover"
    unfolding hover_def by (rule overlay_positions)
  have 4: "map snd legend =
             map (\<lambda>(lab, ts). lab @ '' ('' @ str_nat (length ts) @ '')'') ?items"
    unfolding legend_def by (rule overlay_legend)
  have 5: "inaxes ev \<and> \<not> list_ex (hit C ev) (map StepLine ls) \<longrightarrow>
            fst (on_move C fstr f3 ls hover ev c) =
              map StepLine ls @ upto_first (hit C ev) (marker_artists hover)"
    by (simp add: on_move_probed)
  have 6: "map occurrence_of hover = groups sort ?items \<and>
           sorted (map occurrence_of hover) \<and>
           list_all (\<lambda>(lab, ts). length (filter (\<lambda>h. fst (snd h) = lab) hover) = length ts) index"
    if contract: "\<forall>ts. \<not> list_ex isnan ts \<longrightarrow> srt ts = sort ts"
      and no_nan: "list_all (\<lambda>(lab, ts). \<not> list_ex isnan ts) index"
  proof -
    have "list_all (\<lambda>(lab, ts). srt ts = sort ts) index"
      using contract no_nan by (auto simp: list_all_iff)
    then have "list_all (\<lambda>(lab, ts). srt ts = sort ts) ?items"
      by (simp add: list_all_iff)
    then have "groups srt ?items = groups sort ?items"
      by (rule groups_sorted)
    with 1 have a: "map occurrence_of hover = groups sort ?items"
      by simp
    have b: "sorted (map occurrence_of hover)"
      unfolding a using 2 by (rule sorted_groups)
    have "length (filter (\<lambda>h. fst (snd h) = lab) hover) = length ts"
      if "(lab, ts) \<in> set index" for lab ts
    proof -
      have "length (filter (\<lambda>h. fst (snd h) = lab) hover) =
            length (filter (\<lambda>p. fst p = lab) (map occurrence_of hover))"
        by (simp add: filter_map comp_def occurrence_of_def)
      also have "\<dots> = length ts"
        unfolding a using d' that by (intro count_group) simp_all
      finally show ?thesis .
    qed
    then have "list_all (\<lambda>(lab, ts). length (filter (\<lambda>h. fst (snd h) = lab) hover) = length ts)
                 index"
      by (auto simp: list_all_iff)
    with a b show ?thesis by simp
  qed
  from 0 1 2 3 4 5 6 show ?thesis by blast
qed

lemma example_pipeline_index:
  "read_events example_float example_files ''pipeline.csv'' =
     Inr [(''Mill.Grind'', [2, 1]), (''Farm.Sow'', [1])]"
  by (simp add: read_events_def example_files_simps has_headers_def event_row_def event_cells_def
      convert_def example_float_def normalize_eval)

lemma example_pipeline_sorted:
  "sort_key fst [(''Mill.Grind'', [2, 1 :: real]), (''Farm.Sow'', [1])] =
     [(''Farm.Sow'', [1]), (''Mill.Grind'', [2, 1])]"
  by simp

lemma example_pipeline_overlay:
  "events_overlay example_float example_sorted example_files (Some ''pipeline.csv'') =
     Inr ([],
          [(\<lparr>vx = 1, vcolor = ''tab:blue''\<rparr>, ''Farm.Sow'', 1),
           (\<lparr>vx = 1, vcolor = ''tab:orange''\<rparr>, ''Mill.Grind'', 1),
           (\<lparr>vx = 2, vcolor = ''tab:orange''\<rparr>, ''Mill.Grind'', 2)],
          [(''tab:blue'', ''Farm.Sow (1)''), (''tab:orange'', ''Mill.Grind (2)'')])"
  by (simp add: events_overlay_def given_def example_pipeline_index example_pipeline_sorted
      example_sorted_def palette_def Let_def)

theorem overlay_order_witness:
  "given (Some ''pipeline.csv'') = Some ''pipeline.csv'' \<and>
   read_events example_float example_files ''pipeline.csv'' =
     Inr [(''Mill.Grind'', [2, 1]), (''Farm.Sow'', [1])] \<and>
   example_sorted = sort \<and>
   list_all (\<lambda>(lab, ts). \<not> list_ex example_isnan ts) [(''Mill.Grind'', [2, 1]), (''Farm.Sow'', [1])] \<and>
   events_overlay example_float example_sorted example_files (Some ''pipeline.csv'') =
     Inr ([],
          [(\<lparr>vx = 1, vcolor = ''tab:blue''\<rparr>, ''Farm.Sow'', 1),
           (\<lparr>vx = 1, vcolor = ''tab:orange''\<rparr>, ''Mill.Grind'', 1),
           (\<lparr>vx = 2, vcolor = ''tab:orange''\<rparr>, ''Mill.Grind'', 2)],
          [(''tab:blue'', ''Farm.Sow (1)''), (''tab:orange'', ''Mill.Grind (2)'')]) \<and>
   sorted [(''Farm.Sow'', 1 :: real), (''Mill.Grind'', 1), (''Mill.Grind'', 2)] \<and>
   inaxes \<lparr>inaxes = True, px = 2 :: real, py = 7\<rparr> \<and>
   \<not> list_ex (hit example_contains \<lparr>inaxes = True, px = 2, py = 7\<rparr>)
       (map StepLine example_lines) \<and>
   fst (on_move example_contains example_fstr example_fmt3 example_lines
          [(\<lparr>vx = 1, vcolor = ''tab:blue''\<rparr>, ''Farm.Sow'', 1),
           (\<lparr>vx = 1, vcolor = ''tab:orange''\<rparr>, ''Mill.Grind'', 1),
           (\<lparr>vx = 2, vcolor = ''tab:orange''\<rparr>, ''Mill.Grind'', 2)]
          \<lparr>inaxes = True, px = 2, py = 7\<rparr> (example_canvas False)) =
     map StepLine example_lines @
     [VLine \<lparr>vx = 1, vcolor = ''tab:blue''\<rparr>, VLine \<lparr>vx = 1, vcolor = ''tab:orange''\<rparr>,
      VLine \<lparr>vx = 2, vcolor = ''tab:orange''\<rparr>]"
proof -
  have g: "given (Some ''pipeline.csv'') = Some ''pipeline.csv''"
    by (simp add: given_def)
  note r = example_pipeline_index
  have e: "example_sorted = sort"
    by (rule ext) (simp add: example_sorted_def)
  then have a: "\<forall>ts. \<not> list_ex example_isnan ts \<longrightarrow> example_sorted ts = sort ts"
    by simp
  have b: "list_all (\<lambda>(lab, ts). \<not> list_ex example_isnan ts)
             [(''Mill.Grind'', [2, 1]), (''Farm.Sow'', [1])]"
    by (simp add: example_isnan_def)
  have i: "inaxes \<lparr>inaxes = True, px = 2 :: real, py = 7\<rparr>" by simp
  have n: "\<not> list_ex (hit example_contains \<lparr>inaxes = True, px = 2, py = 7\<rparr>)
       (map StepLine example_lines)"
    by (simp add: example_lines_eq hit_def example_contains_def)
  from overlay_order [OF g r, where ev = "\<lparr>inaxes = True, px = 2, py = 7\<rparr>"
      and C = example_contains and ls = example_lines and fstr = example_fstr
      and ?f3.0 = example_fmt3 and c = "example_canvas False"
      and srt = example_sorted and isnan = example_isnan]
  obtain hover legend where
    o: "events_overlay example_float example_sorted example_files (Some ''pipeline.csv'') =
          Inr ([], hover, legend)"
    and q: "(\<forall>ts. \<not> list_ex example_isnan ts \<longrightarrow> example_sorted ts = sort ts) \<and>
            list_all (\<lambda>(lab, ts). \<not> list_ex example_isnan ts)
              [(''Mill.Grind'', [2, 1]), (''Farm.Sow'', [1])] \<longrightarrow>
            sorted (map occurrence_of hover)"
    and p: "inaxes \<lparr>inaxes = True, px = 2 :: real, py = 7\<rparr> \<and>
            \<not> list_ex (hit example_contains \<lparr>inaxes = True, px = 2, py = 7\<rparr>)
                (map StepLine example_lines) \<longrightarrow>
            fst (on_move example_contains example_fstr example_fmt3 example_lines hover
                   \<lparr>inaxes = True, px = 2, py = 7\<rparr> (example_canvas False)) =
              map StepLine example_lines @
              upto_first (hit example_contains \<lparr>inaxes = True, px = 2, py = 7\<rparr>)
                (marker_artists hover)"
    by blast
  from o have h: "hover =
          [(\<lparr>vx = 1, vcolor = ''tab:blue''\<rparr>, ''Farm.Sow'', 1),
           (\<lparr>vx = 1, vcolor = ''tab:orange''\<rparr>, ''Mill.Grind'', 1),
           (\<lparr>vx = 2, vcolor = ''tab:orange''\<rparr>, ''Mill.Grind'', 2)]"
    by (simp add: example_pipeline_overlay)
  from q a b have "sorted (map occurrence_of hover)"
    by blast
  then have s': "sorted [(''Farm.Sow'', 1 :: real), (''Mill.Grind'', 1), (''Mill.Grind'', 2)]"
    unfolding h by (simp add: occurrence_of_def)
  from p i n have "fst (on_move example_contains example_fstr example_fmt3 example_lines hover
                   \<lparr>inaxes = True, px = 2, py = 7\<rparr> (example_canvas False)) =
              map StepLine example_lines @
              upto_first (hit example_contains \<lparr>inaxes = True, px = 2, py = 7\<rparr>)
                (marker_artists hover)"
    by blast
  then have m: "fst (on_move example_contains example_fstr example_fmt3 example_lines
          [(\<lparr>vx = 1, vcolor = ''tab:blue''\<rparr>, ''Farm.Sow'', 1),
           (\<lparr>vx = 1, vcolor = ''tab:orange''\<rparr>, ''Mill.Grind'', 1),
           (\<lparr>vx = 2, vcolor = ''tab:orange''\<rparr>, ''Mill.Grind'', 2)]
          \<lparr>inaxes = True, px = 2, py = 7\<rparr> (example_canvas False)) =
     map StepLine example_lines @
     [VLine \<lparr>vx = 1, vcolor = ''tab:blue''\<rparr>, VLine \<lparr>vx = 1, vcolor = ''tab:orange''\<rparr>,
      VLine \<lparr>vx = 2, vcolor = ''tab:orange''\<rparr>]"
    unfolding h by (simp add: marker_artists_def hit_def example_contains_def)
  from g r e b example_pipeline_overlay s' i n m show ?thesis by blast
qed

text \<open>
  C10 as stated fails: the months cell \<open>nan\<close> parses as a float, and \<open>sorted\<close> returns the
  times 2.0, nan, 1.0 of a label as they are. The index is loaded, and the marker at
  2.0 is created, and probed, before the marker at 1.0 of the same label.
\<close>

theorem overlay_order_counterexample:
  "read_events nan_float example_files ''nan.csv'' = Inr [(''Farm.Sow'', [Val 2, NaN, Val 1])] \<and>
   nan_sorted [Val 2, NaN, Val 1] = [Val 2, NaN, Val 1] \<and>
   events_overlay nan_float nan_sorted example_files (Some ''nan.csv'') =
     Inr ([],
          [(\<lparr>vx = Val 2, vcolor = ''tab:blue''\<rparr>, ''Farm.Sow'', Val 2),
           (\<lparr>vx = NaN, vcolor = ''tab:blue''\<rparr>, ''Farm.Sow'', NaN),
           (\<lparr>vx = Val 1, vcolor = ''tab:blue''\<rparr>, ''Farm.Sow'', Val 1)],
          [(''tab:blue'', ''Farm.Sow (3)'')]) \<and>
   flt_less (Val 1) (Val 2)"
proof -
  have 1: "read_events nan_float example_files ''nan.csv'' =
             Inr [(''Farm.Sow'', [Val 2, NaN, Val 1])]"
    by (simp add: read_events_def example_files_simps has_headers_def event_row_def
        event_cells_def convert_def nan_float_def normalize_eval)
  have 2: "nan_sorted [Val 2, NaN, Val 1] = [Val 2, NaN, Val 1]"
    by (simp add: nan_sorted_def)
  have 3: "events_overlay nan_float nan_sorted example_files (Some ''nan.csv'') =
     Inr ([],
          [(\<lparr>vx = Val 2, vcolor = ''tab:blue''\<rparr>, ''Farm.Sow'', Val 2),
           (\<lparr>vx = NaN, vcolor = ''tab:blue''\<rparr>, ''Farm.Sow'', NaN),
           (\<lparr>vx = Val 1, vcolor = ''tab:blue''\<rparr>, ''Farm.Sow'', Val 1)],
          [(''tab:blue'', ''Farm.Sow (3)'')])"
    by (simp add: events_overlay_def given_def 1 2 palette_def Let_def)
  from 1 2 3 show ?thesis by simp
qed

end
